theory Spec2Isabelle
  imports Complex_Main "HOL-Library.Sublist" "HOL-Library.List_Lexorder"
begin

section \<open>Python values used by the service\<close>

text \<open>
  A Python \<open>str\<close> is a sequence of Unicode code points, so \<open>len\<close> counts code points and
  comparison is lexicographic on them. A code point is a \<open>nat\<close>; \<open>str\<close> turns an ASCII
  literal into such a sequence.
\<close>

type_synonym pystr = "nat list"

definition str :: "string \<Rightarrow> pystr" where
  "str s = map of_char s"

text \<open>
  The faults a request can end in: FastAPI's rejection of a parameter that violates its
  \<open>Query(...)\<close> declaration (status 422), an \<open>HTTPException\<close> raised by a handler with its
  status code and detail, a \<open>ValueError\<close> escaping from \<open>float()\<close> or the \<open>math\<close> module, a
  \<open>TypeError\<close> from \<open>float()\<close>, and a \<open>KeyError\<close> from reading a key that a dictionary lacks.
\<close>

datatype error = RequestValidationError | HTTPException nat pystr | ValueError | TypeError | KeyError

subsection \<open>\<open>str.lower\<close>\<close>

text \<open>
  On a string of ASCII code points \<open>str.lower\<close> maps \<open>A\<close>..\<open>Z\<close> to \<open>a\<close>..\<open>z\<close> and leaves the
  rest alone. On any other string it applies the Unicode case mapping, which is part of
  the Python runtime and not of this repository: it is the parameter \<open>ul\<close>.
\<close>

definition lower_cp :: "nat \<Rightarrow> nat" where
  "lower_cp c = (if 65 \<le> c \<and> c \<le> 90 then c + 32 else c)"

definition py_lower :: "(pystr \<Rightarrow> pystr) \<Rightarrow> pystr \<Rightarrow> pystr" where
  "py_lower ul s = (if list_all (\<lambda>c. c < 128) s then map lower_cp s else ul s)"

subsection \<open>\<open>a in b\<close> on strings\<close>

fun py_in :: "'a list \<Rightarrow> 'a list \<Rightarrow> bool" where
  "py_in a [] = (a = [])"
| "py_in a (c # cs) = (prefix a (c # cs) \<or> py_in a cs)"

subsection \<open>\<open>str.split(sep)\<close> and \<open>str.strip()\<close>\<close>

text \<open>
  \<open>s.split(sep)\<close> for a non-empty separator: scanning from the left, every occurrence of
  \<open>sep\<close> ends a segment and the scan resumes after it. (Python raises on an empty
  separator; the service only splits on the constant \<open>"\r\n"\<close>.)
\<close>

function split_on :: "'a list \<Rightarrow> 'a list \<Rightarrow> 'a list list" where
  "split_on sep [] = [[]]"
| "split_on sep (c # cs) =
     (if sep \<noteq> [] \<and> prefix sep (c # cs)
      then [] # split_on sep (drop (length sep) (c # cs))
      else (case split_on sep cs of [] \<Rightarrow> [[c]] | w # ws \<Rightarrow> (c # w) # ws))"
  by pat_completeness auto
termination
  by (relation "measure (\<lambda>(sep, s). length s)") (auto simp: neq_Nil_conv)

definition CRLF :: pystr where
  "CRLF = [13, 10]"

text \<open>The code points \<open>str.strip()\<close> removes: those for which \<open>str.isspace\<close> holds.\<close>

definition is_space :: "nat \<Rightarrow> bool" where
  "is_space c = (c \<in> set ([9, 10, 11, 12, 13, 28, 29, 30, 31, 32, 133, 160, 5760]
      @ [8192 ..< 8203] @ [8232, 8233, 8239, 8287, 12288]))"

definition py_strip :: "pystr \<Rightarrow> pystr" where
  "py_strip s = rev (dropWhile is_space (rev (dropWhile is_space s)))"

subsection \<open>Slicing\<close>

text \<open>\<open>xs[i:j]\<close>: a negative bound counts from the end, and both bounds are clamped.\<close>

definition slice_bound :: "int \<Rightarrow> int \<Rightarrow> int" where
  "slice_bound n k = (if k < 0 then max 0 (k + n) else min k n)"

definition py_slice :: "'a list \<Rightarrow> int \<Rightarrow> int \<Rightarrow> 'a list" where
  "py_slice xs i j =
     (let n = int (length xs); a = slice_bound n i; b = slice_bound n j
      in if a < b then take (nat (b - a)) (drop (nat a) xs) else [])"

subsection \<open>Floats\<close>

text \<open>
  A Python \<open>float\<close> is an IEEE-754 double. A finite double is modelled by a real number
  and written by its \<open>repr\<close>, as Python prints it; infinities and NaN are outside the model.
  Comparing two doubles is exact. What the arithmetic returns is not decided by the
  repository: the rounding of each operation, the C library's \<open>sin\<close>, \<open>cos\<close>, \<open>asin\<close> and
  \<open>pow\<close>, the conversion in \<open>math.radians\<close> and the rounding of \<open>round\<close>. These operations
  are the parameter \<open>fp\<close>, one field for each operation that \<open>main.py\<close> uses.
\<close>

record float_ops =
  f_radians :: "real \<Rightarrow> real"
  f_sub :: "real \<Rightarrow> real \<Rightarrow> real"
  f_div :: "real \<Rightarrow> real \<Rightarrow> real"
  f_sin :: "real \<Rightarrow> real"
  f_pow :: "real \<Rightarrow> int \<Rightarrow> real"
  f_cos :: "real \<Rightarrow> real"
  f_mul :: "real \<Rightarrow> real \<Rightarrow> real"
  f_add :: "real \<Rightarrow> real \<Rightarrow> real"
  f_sqrt :: "real \<Rightarrow> real"
  f_asin :: "real \<Rightarrow> real"
  f_round :: "real \<Rightarrow> int \<Rightarrow> real"

text \<open>
  \<open>math.sqrt\<close> raises \<open>ValueError\<close> on a negative argument and \<open>math.asin\<close> on one outside
  -1..1; otherwise they return what the arithmetic gives.
\<close>

definition math_sqrt :: "float_ops \<Rightarrow> real \<Rightarrow> error + real" where
  "math_sqrt fp x = (if x < 0 then Inl ValueError else Inr (f_sqrt fp x))"

definition math_asin :: "float_ops \<Rightarrow> real \<Rightarrow> error + real" where
  "math_asin fp x = (if x < - 1 \<or> 1 < x then Inl ValueError else Inr (f_asin fp x))"

section \<open>The service (\<open>main.py\<close>)\<close>

subsection \<open>Records of the dataset\<close>

text \<open>
  One entry of \<open>sportsantecvl.json\<close>. \<open>Pathologies\<close> stands for the key that the
  handlers of \<open>/pathology\<close> and \<open>/pathologies\<close> read. A coordinate entry is a
  number or a text that \<open>float()\<close> reads as the double \<open>x\<close> (\<open>Number x\<close>), a text that \<open>float()\<close>
  rejects (\<open>BadText\<close>), a value that is neither, such as \<open>null\<close> (\<open>NotText\<close>), or absent
  (\<open>Missing\<close>). \<open>py_float\<close> is \<open>float(center[key])\<close> on such an entry.
\<close>

datatype coordinate = Number real | BadText | NotText | Missing

record center =
  center_id :: pystr
  Name :: pystr
  Description :: pystr
  Discipline :: pystr
  Pathologies :: pystr
  address :: pystr
  lat :: coordinate
  lng :: coordinate

fun py_float :: "coordinate \<Rightarrow> error + real" where
  "py_float (Number x) = Inr x"
| "py_float BadText = Inl ValueError"
| "py_float NotText = Inl TypeError"
| "py_float Missing = Inl KeyError"

subsection \<open>\<open>haversine_distance\<close>\<close>

text \<open>The term \<open>a\<close>, from coordinates already in radians.\<close>

definition haversine_a :: "float_ops \<Rightarrow> real \<Rightarrow> real \<Rightarrow> real \<Rightarrow> real \<Rightarrow> real" where
  "haversine_a fp lat1 lon1 lat2 lon2 =
     (let dlat = f_sub fp lat2 lat1; dlon = f_sub fp lon2 lon1
      in f_add fp (f_pow fp (f_sin fp (f_div fp dlat 2)) 2)
           (f_mul fp (f_mul fp (f_cos fp lat1) (f_cos fp lat2))
              (f_pow fp (f_sin fp (f_div fp dlon 2)) 2)))"

definition haversine_distance :: "float_ops \<Rightarrow> real \<Rightarrow> real \<Rightarrow> real \<Rightarrow> real \<Rightarrow> error + real" where
  "haversine_distance fp lat1 lon1 lat2 lon2 =
     (let R = 6371;
          a = haversine_a fp (f_radians fp lat1) (f_radians fp lon1)
                (f_radians fp lat2) (f_radians fp lon2)
      in case math_sqrt fp a of
           Inl e \<Rightarrow> Inl e
         | Inr r \<Rightarrow>
             (case math_asin fp r of
                Inl e \<Rightarrow> Inl e
              | Inr s \<Rightarrow> Inr (f_mul fp R (f_mul fp 2 s))))"

subsection \<open>\<open>GET /\<close>\<close>

record root_response =
  message :: pystr
  total_centers :: nat
  endpoints :: "(pystr \<times> pystr) list"

definition root :: "center list \<Rightarrow> root_response" where
  "root centers =
     \<lparr>message = str ''Sports Health Centers API'',
      total_centers = length centers,
      endpoints =
        [(str ''all_centers'', str ''/centers''),
         (str ''center_by_id'', str ''/centers/{id}''),
         (str ''search'', str ''/search?q=keyword''),
         (str ''by_discipline'', str ''/discipline?name=Tennis''),
         (str ''by_pathology'', str ''/pathology?name=Cancer''),
         (str ''nearby'', str ''/nearby?lat=47.0&lng=2.0&radius_km=50'')]\<rparr>"

subsection \<open>\<open>GET /centers\<close>\<close>

record all_response =
  total :: nat
  limit :: int
  offset :: int
  data :: "center list"

text \<open>
  A query parameter that the request leaves out is \<open>None\<close>. \<open>limit\<close> is declared
  \<open>Query(default=100, ge=1, le=500)\<close> and \<open>offset\<close> \<open>Query(default=0, ge=0)\<close>.
\<close>

definition get_all_centers :: "center list \<Rightarrow> int option \<Rightarrow> int option \<Rightarrow> error + all_response" where
  "get_all_centers centers limit_p offset_p =
     (let limit = (case limit_p of None \<Rightarrow> 100 | Some l \<Rightarrow> l);
          offset = (case offset_p of None \<Rightarrow> 0 | Some off \<Rightarrow> off)
      in if 1 \<le> limit \<and> limit \<le> 500 \<and> 0 \<le> offset
         then Inr \<lparr>total = length centers, limit = limit, offset = offset,
                   data = py_slice centers offset (offset + limit)\<rparr>
         else Inl RequestValidationError)"

subsection \<open>\<open>GET /centers/{center_id}\<close>\<close>

fun get_center_by_id :: "center list \<Rightarrow> pystr \<Rightarrow> error + center" where
  "get_center_by_id [] cid =
     Inl (HTTPException 404 (str ''Center with id '' @ cid @ str '' not found''))"
| "get_center_by_id (center # centers) cid =
     (if center_id center = cid then Inr center else get_center_by_id centers cid)"

subsection \<open>\<open>GET /search\<close>\<close>

record search_response =
  query :: pystr
  count :: nat
  data :: "center list"

fun search_loop :: "(pystr \<Rightarrow> pystr) \<Rightarrow> pystr \<Rightarrow> center list \<Rightarrow> center list \<Rightarrow> center list" where
  "search_loop ul q_lower [] results = results"
| "search_loop ul q_lower (center # centers) results =
     search_loop ul q_lower centers
       (if py_in q_lower (py_lower ul (Name center)) \<or>
           py_in q_lower (py_lower ul (Description center)) \<or>
           py_in q_lower (py_lower ul (Discipline center))
        then results @ [center] else results)"

text \<open>\<open>q\<close> is declared \<open>Query(..., min_length=2)\<close>: required, at least two characters.\<close>

definition search_centers :: "(pystr \<Rightarrow> pystr) \<Rightarrow> center list \<Rightarrow> pystr option \<Rightarrow> error + search_response" where
  "search_centers ul centers q_p =
     (case q_p of
        None \<Rightarrow> Inl RequestValidationError
      | Some q \<Rightarrow>
          if length q < 2 then Inl RequestValidationError
          else (let q_lower = py_lower ul q;
                    results = search_loop ul q_lower centers []
                in Inr \<lparr>query = q, search_response.count = length results,
                         search_response.data = results\<rparr>))"

subsection \<open>\<open>GET /discipline\<close> and \<open>GET /pathology\<close>\<close>

record discipline_response =
  discipline :: pystr
  count :: nat
  data :: "center list"

record pathology_response =
  pathology :: pystr
  count :: nat
  data :: "center list"

text \<open>\<open>name\<close> is declared \<open>Query(...)\<close>: required, with no other constraint.\<close>

definition get_by_discipline :: "(pystr \<Rightarrow> pystr) \<Rightarrow> center list \<Rightarrow> pystr option \<Rightarrow> error + discipline_response" where
  "get_by_discipline ul centers name_p =
     (case name_p of
        None \<Rightarrow> Inl RequestValidationError
      | Some name \<Rightarrow>
          (let name_lower = py_lower ul name;
               results = filter (\<lambda>c. py_in name_lower (py_lower ul (Discipline c))) centers
           in Inr \<lparr>discipline = name, discipline_response.count = length results,
                    discipline_response.data = results\<rparr>))"

definition get_by_pathology :: "(pystr \<Rightarrow> pystr) \<Rightarrow> center list \<Rightarrow> pystr option \<Rightarrow> error + pathology_response" where
  "get_by_pathology ul centers name_p =
     (case name_p of
        None \<Rightarrow> Inl RequestValidationError
      | Some name \<Rightarrow>
          (let name_lower = py_lower ul name;
               results = filter (\<lambda>c. py_in name_lower (py_lower ul (Pathologies c))) centers
           in Inr \<lparr>pathology = name, pathology_response.count = length results,
                    pathology_response.data = results\<rparr>))"

subsection \<open>\<open>GET /disciplines\<close> and \<open>GET /pathologies\<close>\<close>

record disciplines_response =
  count :: nat
  disciplines :: "pystr list"

record pathologies_response =
  count :: nat
  pathologies :: "pystr list"

text \<open>
  The inner loop adds the stripped, non-empty segments of one field to the set; the outer
  loop runs it over the collection. \<open>sorted\<close> on a set of strings is the list of its
  elements in ascending order.
\<close>

fun add_segments :: "pystr list \<Rightarrow> pystr set \<Rightarrow> pystr set" where
  "add_segments [] acc = acc"
| "add_segments (d # ds) acc =
     add_segments ds (let d' = py_strip d in if d' \<noteq> [] then insert d' acc else acc)"

fun collect_tokens :: "(center \<Rightarrow> pystr) \<Rightarrow> center list \<Rightarrow> pystr set \<Rightarrow> pystr set" where
  "collect_tokens field [] acc = acc"
| "collect_tokens field (center # centers) acc =
     collect_tokens field centers (add_segments (split_on CRLF (field center)) acc)"

definition list_disciplines :: "center list \<Rightarrow> disciplines_response" where
  "list_disciplines centers =
     (let all_disciplines = collect_tokens Discipline centers {}
      in \<lparr>disciplines_response.count = card all_disciplines, disciplines = sorted_list_of_set all_disciplines\<rparr>)"

definition list_pathologies :: "center list \<Rightarrow> pathologies_response" where
  "list_pathologies centers =
     (let all_pathologies = collect_tokens Pathologies centers {}
      in \<lparr>pathologies_response.count = card all_pathologies, pathologies = sorted_list_of_set all_pathologies\<rparr>)"

subsection \<open>\<open>GET /nearby\<close>\<close>

text \<open>\<open>{**center, "distance_km": d}\<close>: a new dictionary with the record's entries and one more.\<close>

record nearby_center =
  entries :: center
  distance_km :: real

record nearby_response =
  location :: "real \<times> real"
  radius_km :: real
  count :: nat
  data :: "nearby_center list"

fun nearby_loop :: "float_ops \<Rightarrow> real \<Rightarrow> real \<Rightarrow> real \<Rightarrow> center list \<Rightarrow> nearby_center list \<Rightarrow> error + nearby_center list" where
  "nearby_loop fp lat_q lng_q radius [] results = Inr results"
| "nearby_loop fp lat_q lng_q radius (center # centers) results =
     (case py_float (lat center) of
        Inl e \<Rightarrow> Inl e
      | Inr center_lat \<Rightarrow>
          (case py_float (lng center) of
             Inl e \<Rightarrow> Inl e
           | Inr center_lng \<Rightarrow>
               (case haversine_distance fp lat_q lng_q center_lat center_lng of
                  Inl e \<Rightarrow> Inl e
                | Inr distance \<Rightarrow>
                    nearby_loop fp lat_q lng_q radius centers
                      (if distance \<le> radius
                       then results @ [\<lparr>entries = center,
                                         distance_km = f_round fp distance 2\<rparr>]
                       else results))))"

text \<open>
  \<open>lat\<close> and \<open>lng\<close> are required; \<open>radius_km\<close> is declared \<open>Query(default=50, ge=1, le=500)\<close>.
  \<open>list.sort(key=...)\<close> is a stable sort.
\<close>

definition get_nearby_centers :: "float_ops \<Rightarrow> center list \<Rightarrow> real option \<Rightarrow> real option \<Rightarrow> real option \<Rightarrow> error + nearby_response" where
  "get_nearby_centers fp centers lat_p lng_p radius_p =
     (case lat_p of
        None \<Rightarrow> Inl RequestValidationError
      | Some lat_q \<Rightarrow>
          (case lng_p of
             None \<Rightarrow> Inl RequestValidationError
           | Some lng_q \<Rightarrow>
               (let radius = (case radius_p of None \<Rightarrow> 50 | Some r \<Rightarrow> r)
                in if 1 \<le> radius \<and> radius \<le> 500
                   then (case nearby_loop fp lat_q lng_q radius centers [] of
                           Inl e \<Rightarrow> Inl e
                         | Inr results \<Rightarrow>
                             Inr \<lparr>location = (lat_q, lng_q), radius_km = radius,
                                   nearby_response.count = length results,
                                   nearby_response.data = sort_key distance_km results\<rparr>)
                   else Inl RequestValidationError)))"

section \<open>A small dataset for concrete runs\<close>

definition center_tours :: center where
  "center_tours = \<lparr>center_id = str ''c1'', Name = str ''ASPTT Tours'',
     Description = str ''Club omnisports'',
     Discipline = str ''Tennis de table'' @ CRLF @ str ''Basket'' @ CRLF,
     Pathologies = str ''Cancer'' @ CRLF @ str ''Diabete'' @ CRLF,
     address = str ''Tours'', lat = Number 47.39, lng = Number 0.69\<rparr>"

definition center_piscine :: center where
  "center_piscine = \<lparr>center_id = str ''c2'', Name = str ''Piscine de Tours'',
     Description = str ''Bassin sportif'',
     Discipline = str ''Natation'' @ CRLF,
     Pathologies = str ''Obesite'' @ CRLF @ str '' Cancer '' @ CRLF,
     address = str ''Tours'', lat = Number 47.39, lng = Number 0.69\<rparr>"

section \<open>The service with its dictionaries as objects\<close>

text \<open>
  A Python dictionary is a mutable object, and the global \<open>centers\<close> is a list of
  references to the dictionaries that \<open>json.load\<close> built. Here a process is the heap of
  dictionary objects, an address being an index into it, together with the references
  that \<open>centers\<close> holds. Building a dictionary appends a new object to the heap. A
  dictionary has the keys of a dataset record, and \<open>distance_km\<close> too when \<open>nearby\<close> built it;
  reading \<open>distance_km\<close> from one that lacks it raises \<open>KeyError\<close>.
\<close>

type_synonym addr = nat

datatype pydict = CenterDict center | NearbyDict nearby_center

fun fields_of :: "pydict \<Rightarrow> center" where
  "fields_of (CenterDict c) = c"
| "fields_of (NearbyDict n) = entries n"

fun distance_entry :: "pydict \<Rightarrow> error + real" where
  "distance_entry (CenterDict c) = Inl KeyError"
| "distance_entry (NearbyDict n) = Inr (distance_km n)"

record process =
  heap :: "pydict list"
  center_refs :: "addr list"

text \<open>\<open>load_centers\<close> runs once, at start: one dictionary for each entry of the file.\<close>

definition load_centers :: "center list \<Rightarrow> process" where
  "load_centers dataset = \<lparr>heap = map CenterDict dataset, center_refs = [0 ..< length dataset]\<rparr>"

text \<open>What a handler sees when it iterates over \<open>centers\<close> and reads the fields.\<close>

definition collection :: "process \<Rightarrow> center list" where
  "collection p = map (\<lambda>a. fields_of (heap p ! a)) (center_refs p)"

text \<open>
  The loop of \<open>nearby\<close>: \<open>{**center, "distance_km": ...}\<close> allocates a dictionary and the
  list \<open>results\<close> holds its address. The heap is returned also when a fault ends the loop.
\<close>

fun nearby_loop_st :: "float_ops \<Rightarrow> real \<Rightarrow> real \<Rightarrow> real \<Rightarrow> addr list \<Rightarrow> pydict list \<Rightarrow> addr list \<Rightarrow>
    (error + addr list) \<times> pydict list" where
  "nearby_loop_st fp lat_q lng_q radius [] h results = (Inr results, h)"
| "nearby_loop_st fp lat_q lng_q radius (a # as) h results =
     (let center = fields_of (h ! a)
      in case py_float (lat center) of
           Inl e \<Rightarrow> (Inl e, h)
         | Inr center_lat \<Rightarrow>
             (case py_float (lng center) of
                Inl e \<Rightarrow> (Inl e, h)
              | Inr center_lng \<Rightarrow>
                  (case haversine_distance fp lat_q lng_q center_lat center_lng of
                     Inl e \<Rightarrow> (Inl e, h)
                   | Inr distance \<Rightarrow>
                       if distance \<le> radius
                       then nearby_loop_st fp lat_q lng_q radius as
                              (h @ [NearbyDict \<lparr>entries = center,
                                                distance_km = f_round fp distance 2\<rparr>])
                              (results @ [length h])
                       else nearby_loop_st fp lat_q lng_q radius as h results)))"

text \<open>
  \<open>results.sort(key=lambda x: x["distance_km"])\<close>: the keys are computed first, then the
  references are sorted by them, stably.
\<close>

fun decorate :: "pydict list \<Rightarrow> addr list \<Rightarrow> error + (real \<times> addr) list" where
  "decorate h [] = Inr []"
| "decorate h (a # as) =
     (case distance_entry (h ! a) of
        Inl e \<Rightarrow> Inl e
      | Inr k \<Rightarrow> (case decorate h as of Inl e \<Rightarrow> Inl e | Inr ks \<Rightarrow> Inr ((k, a) # ks)))"

definition sort_by_distance_km :: "pydict list \<Rightarrow> addr list \<Rightarrow> error + addr list" where
  "sort_by_distance_km h results =
     (case decorate h results of Inl e \<Rightarrow> Inl e | Inr ks \<Rightarrow> Inr (map snd (sort_key fst ks)))"

text \<open>The JSON body of \<open>nearby\<close>: the dictionaries that the sorted references point to.\<close>

record nearby_body =
  body_location :: "real \<times> real"
  body_radius_km :: real
  body_count :: nat
  body_data :: "pydict list"

definition get_nearby_centers_st :: "float_ops \<Rightarrow> real option \<Rightarrow> real option \<Rightarrow> real option \<Rightarrow> process \<Rightarrow>
    (error + nearby_body) \<times> process" where
  "get_nearby_centers_st fp lat_p lng_p radius_p p =
     (case lat_p of
        None \<Rightarrow> (Inl RequestValidationError, p)
      | Some lat_q \<Rightarrow>
          (case lng_p of
             None \<Rightarrow> (Inl RequestValidationError, p)
           | Some lng_q \<Rightarrow>
               (let radius = (case radius_p of None \<Rightarrow> 50 | Some r \<Rightarrow> r)
                in if 1 \<le> radius \<and> radius \<le> 500
                   then (case nearby_loop_st fp lat_q lng_q radius (center_refs p) (heap p) [] of
                           (Inl e, h) \<Rightarrow> (Inl e, p\<lparr>heap := h\<rparr>)
                         | (Inr results, h) \<Rightarrow>
                             (case sort_by_distance_km h results of
                                Inl e \<Rightarrow> (Inl e, p\<lparr>heap := h\<rparr>)
                              | Inr sorted_results \<Rightarrow>
                                  (Inr \<lparr>body_location = (lat_q, lng_q), body_radius_km = radius,
                                        body_count = length sorted_results,
                                        body_data = map (\<lambda>a. h ! a) sorted_results\<rparr>,
                                   p\<lparr>heap := h\<rparr>)))
                   else (Inl RequestValidationError, p))))"

text \<open>
  A request and the handler that serves it. Every handler but \<open>nearby\<close> only reads the
  collection and leaves the process as it found it.
\<close>

datatype request =
    Root
  | AllCenters "int option" "int option"
  | CenterById pystr
  | Search "pystr option"
  | ByDiscipline "pystr option"
  | ListDisciplines
  | ByPathology "pystr option"
  | ListPathologies
  | Nearby "real option" "real option" "real option"

datatype response =
    RootBody root_response
  | AllBody all_response
  | CenterBody center
  | SearchBody search_response
  | DisciplineBody discipline_response
  | DisciplinesBody disciplines_response
  | PathologyBody pathology_response
  | PathologiesBody pathologies_response
  | NearbyBody nearby_body

definition reply :: "('a \<Rightarrow> response) \<Rightarrow> error + 'a \<Rightarrow> error + response" where
  "reply body r = (case r of Inl e \<Rightarrow> Inl e | Inr v \<Rightarrow> Inr (body v))"

fun handle :: "float_ops \<Rightarrow> (pystr \<Rightarrow> pystr) \<Rightarrow> request \<Rightarrow> process \<Rightarrow> (error + response) \<times> process" where
  "handle fp ul Root p = (Inr (RootBody (root (collection p))), p)"
| "handle fp ul (AllCenters limit_p offset_p) p =
     (reply AllBody (get_all_centers (collection p) limit_p offset_p), p)"
| "handle fp ul (CenterById cid) p = (reply CenterBody (get_center_by_id (collection p) cid), p)"
| "handle fp ul (Search q_p) p = (reply SearchBody (search_centers ul (collection p) q_p), p)"
| "handle fp ul (ByDiscipline name_p) p =
     (reply DisciplineBody (get_by_discipline ul (collection p) name_p), p)"
| "handle fp ul ListDisciplines p = (Inr (DisciplinesBody (list_disciplines (collection p))), p)"
| "handle fp ul (ByPathology name_p) p =
     (reply PathologyBody (get_by_pathology ul (collection p) name_p), p)"
| "handle fp ul ListPathologies p = (Inr (PathologiesBody (list_pathologies (collection p))), p)"
| "handle fp ul (Nearby lat_p lng_p radius_p) p =
     (case get_nearby_centers_st fp lat_p lng_p radius_p p of (r, p') \<Rightarrow> (reply NearbyBody r, p'))"

text \<open>The process after a sequence of requests.\<close>

fun run :: "float_ops \<Rightarrow> (pystr \<Rightarrow> pystr) \<Rightarrow> request list \<Rightarrow> process \<Rightarrow> process" where
  "run fp ul [] p = p"
| "run fp ul (req # reqs) p = run fp ul reqs (snd (handle fp ul req p))"

text \<open>
  \<open>valid_refs\<close>: every reference of \<open>centers\<close> points into the heap. \<open>json_body\<close>: the body
  that corresponds to a result of \<open>get_nearby_centers\<close> on values.
\<close>

definition valid_refs :: "process \<Rightarrow> bool" where
  "valid_refs p = list_all (\<lambda>a. a < length (heap p)) (center_refs p)"

definition json_body :: "nearby_response \<Rightarrow> nearby_body" where
  "json_body res = \<lparr>body_location = location res, body_radius_km = radius_km res,
     body_count = nearby_response.count res,
     body_data = map NearbyDict (nearby_response.data res)\<rparr>"

section \<open>What \<open>nearby\<close> computes for one record\<close>

text \<open>
  \<open>center_distance\<close> is what one pass of the loop computes before the radius test: the
  distance from the query point to the record, or the fault that \<open>float()\<close> or
  \<open>haversine_distance\<close> raises. \<open>in_radius\<close> is the radius test on it, and \<open>annotate\<close> the
  dictionary that the loop appends for a record that passes. \<open>is_number\<close> holds of a
  coordinate entry that \<open>float()\<close> accepts.
\<close>

definition center_distance :: "float_ops \<Rightarrow> real \<Rightarrow> real \<Rightarrow> center \<Rightarrow> error + real" where
  "center_distance fp lat_q lng_q center =
     (case py_float (lat center) of
        Inl e \<Rightarrow> Inl e
      | Inr center_lat \<Rightarrow>
          (case py_float (lng center) of
             Inl e \<Rightarrow> Inl e
           | Inr center_lng \<Rightarrow> haversine_distance fp lat_q lng_q center_lat center_lng))"

definition in_radius :: "float_ops \<Rightarrow> real \<Rightarrow> real \<Rightarrow> real \<Rightarrow> center \<Rightarrow> bool" where
  "in_radius fp lat_q lng_q radius center =
     (case center_distance fp lat_q lng_q center of Inl e \<Rightarrow> False | Inr d \<Rightarrow> d \<le> radius)"

definition annotate :: "float_ops \<Rightarrow> real \<Rightarrow> real \<Rightarrow> center \<Rightarrow> nearby_center" where
  "annotate fp lat_q lng_q center =
     \<lparr>entries = center,
      distance_km = (case center_distance fp lat_q lng_q center of
                       Inl e \<Rightarrow> 0 | Inr d \<Rightarrow> f_round fp d 2)\<rparr>"

fun is_number :: "coordinate \<Rightarrow> bool" where
  "is_number (Number x) = True"
| "is_number BadText = False"
| "is_number NotText = False"
| "is_number Missing = False"

section \<open>Two properties of the arithmetic on doubles\<close>

text \<open>
  IEEE-754 arithmetic and the C library are exact at zero: \<open>x - x\<close>, \<open>0 / 2\<close>, \<open>sin 0\<close>,
  \<open>0 ** 2\<close>, \<open>x * 0\<close>, \<open>0 + 0\<close>, \<open>sqrt 0\<close>, \<open>asin 0\<close> and \<open>round(0, 2)\<close> are all zero for a
  finite \<open>x\<close>. And they keep the sign: the square root, the arc sine, the product and the
  rounding of non-negative doubles are non-negative. Theorems that need these properties
  assume them of \<open>fp\<close>.
\<close>

definition exact_at_zero :: "float_ops \<Rightarrow> bool" where
  "exact_at_zero fp =
     ((\<forall>x. f_sub fp x x = 0) \<and> f_div fp 0 2 = 0 \<and> f_sin fp 0 = 0 \<and> f_pow fp 0 2 = 0 \<and>
      (\<forall>x. f_mul fp x 0 = 0) \<and> f_add fp 0 0 = 0 \<and> f_sqrt fp 0 = 0 \<and> f_asin fp 0 = 0 \<and>
      f_round fp 0 2 = 0)"

definition keeps_sign :: "float_ops \<Rightarrow> bool" where
  "keeps_sign fp =
     ((\<forall>x. 0 \<le> x \<longrightarrow> 0 \<le> f_sqrt fp x) \<and>
      (\<forall>x. 0 \<le> x \<and> x \<le> 1 \<longrightarrow> 0 \<le> f_asin fp x) \<and>
      (\<forall>x y. 0 \<le> x \<and> 0 \<le> y \<longrightarrow> 0 \<le> f_mul fp x y) \<and>
      (\<forall>x. 0 \<le> x \<longrightarrow> 0 \<le> f_round fp x 2))"

section \<open>Doubles for concrete runs\<close>

text \<open>
  \<open>round(x, n)\<close> returns the double nearest to \<open>x\<close> rounded to \<open>n\<close> decimals, a tie going to the
  even digit; written by its \<open>repr\<close>, that is the rounded decimal itself.
\<close>

definition round_half_even :: "real \<Rightarrow> int" where
  "round_half_even y =
     (let f = \<lfloor>y\<rfloor>; d = y - of_int f
      in if d < 1 / 2 then f else if 1 / 2 < d then f + 1 else if even f then f else f + 1)"

definition round_to :: "real \<Rightarrow> int \<Rightarrow> real" where
  "round_to x n = of_int (round_half_even (x * 10 ^ nat n)) / 10 ^ nat n"

text \<open>
  \<open>traced_ops\<close> gives, at the arguments that occur in the runs below, the doubles that
  CPython returns there, each written by its \<open>repr\<close>; at any other argument it gives the
  result without rounding. The runs are: the query (492.61, 180.69) against a record at
  (47.39, 0.69); the query (0, 0) against records at (0, 0.009058) and (0, 0.00905); and
  queries against records at the query point.
\<close>

definition traced_radians :: "real \<Rightarrow> real" where
  "traced_radians x =
     (if x = 492.61 then 8.597666428249267
      else if x = 180.69 then 3.153635425428554
      else if x = 47.39 then 0.8271115325201128
      else if x = 0.69 then 0.012042771838760872
      else if x = 0.009058 then 0.00015809192364564636
      else if x = 0.00905 then 0.00015795229730548684
      else x * pi / 180)"

definition traced_sub :: "real \<Rightarrow> real \<Rightarrow> real" where
  "traced_sub x y =
     (if (x, y) = (0.8271115325201128, 8.597666428249267) then - 7.770554895729155
      else if (x, y) = (0.012042771838760872, 3.153635425428554) then - 3.141592653589793
      else x - y)"

definition traced_div :: "real \<Rightarrow> real \<Rightarrow> real" where
  "traced_div x y =
     (if (x, y) = (- 7.770554895729155, 2) then - 3.8852774478645773
      else if (x, y) = (- 3.141592653589793, 2) then - 1.5707963267948966
      else x / y)"

definition traced_sin :: "real \<Rightarrow> real" where
  "traced_sin x =
     (if x = - 3.8852774478645773 then 0.6770044325504438
      else if x = - 1.5707963267948966 then - 1
      else if x = 0.00007904596182282318 then 0.00007904596174050651
      else if x = 0.00007897614865274342 then 0.00007897614857064466
      else sin x)"

definition traced_pow :: "real \<Rightarrow> int \<Rightarrow> real" where
  "traced_pow x n =
     (if (x, n) = (0.6770044325504438, 2) then 0.4583350016929485
      else if (x, n) = (0.00007904596174050651, 2) then 0.00000000624826406748162
      else if (x, n) = (0.00007897614857064466, 2) then 0.000000006237232043052539
      else x ^ nat n)"

definition traced_cos :: "real \<Rightarrow> real" where
  "traced_cos x =
     (if x = 8.597666428249267 then - 0.6770044325504441
      else if x = 0.8271115325201128 then 0.6770044325504437
      else cos x)"

definition traced_mul :: "real \<Rightarrow> real \<Rightarrow> real" where
  "traced_mul x y =
     (if (x, y) = (- 0.6770044325504441, 0.6770044325504437) then - 0.45833500169294855
      else if (x, y) = (0.6770044325504437, 0.6770044325504437) then 0.45833500169294833
      else if (x, y) = (6371, 0.00015809192364564636) then 1.007203645546413
      else if (x, y) = (6371, 0.00015795229730548684) then 1.0063140861332567
      else x * y)"

definition traced_add :: "real \<Rightarrow> real \<Rightarrow> real" where
  "traced_add x y =
     (if (x, y) = (0.4583350016929485, - 0.45833500169294855)
      then - 0.00000000000000005551115123125783
      else x + y)"

definition traced_sqrt :: "real \<Rightarrow> real" where
  "traced_sqrt x =
     (if x = 0.00000000624826406748162 then 0.00007904596174050651
      else if x = 0.000000006237232043052539 then 0.00007897614857064466
      else sqrt x)"

definition traced_asin :: "real \<Rightarrow> real" where
  "traced_asin x =
     (if x = 0.00007904596174050651 then 0.00007904596182282318
      else if x = 0.00007897614857064466 then 0.00007897614865274342
      else arcsin x)"

definition traced_ops :: float_ops where
  "traced_ops =
     \<lparr>f_radians = traced_radians, f_sub = traced_sub, f_div = traced_div, f_sin = traced_sin,
      f_pow = traced_pow, f_cos = traced_cos, f_mul = traced_mul, f_add = traced_add,
      f_sqrt = traced_sqrt, f_asin = traced_asin, f_round = round_to\<rparr>"

text \<open>
  Records for these runs: two on the equator east of (0, 0), about 1.0072 km and
  1.0063 km away, and two at (0, 0).
\<close>

definition center_east_a :: center where
  "center_east_a = \<lparr>center_id = str ''e1'', Name = str ''Centre A'', Description = [],
     Discipline = [], Pathologies = [], address = [], lat = Number 0, lng = Number 0.009058\<rparr>"

definition center_east_b :: center where
  "center_east_b = \<lparr>center_id = str ''e2'', Name = str ''Centre B'', Description = [],
     Discipline = [], Pathologies = [], address = [], lat = Number 0, lng = Number 0.00905\<rparr>"

definition center_origin :: center where
  "center_origin = \<lparr>center_id = str ''o1'', Name = str ''Centre O'', Description = [],
     Discipline = [], Pathologies = [], address = [], lat = Number 0, lng = Number 0\<rparr>"

definition center_origin_2 :: center where
  "center_origin_2 = \<lparr>center_id = str ''o2'', Name = str ''Centre P'', Description = [],
     Discipline = [], Pathologies = [], address = [], lat = Number 0, lng = Number 0\<rparr>"

section \<open>Properties of the Python operations\<close>

text \<open>\<open>a in b\<close> holds exactly when \<open>b\<close> is \<open>ps @ a @ ss\<close> for some \<open>ps\<close> and \<open>ss\<close>, which is
  what \<^const>\<open>sublist\<close> says.\<close>

lemma py_in_sublist: "py_in a b \<longleftrightarrow> sublist a b"
  by (induction b) (simp_all add: sublist_Cons_right)

lemma search_loop_filter:
  "search_loop ul q cs acc = acc @ filter (\<lambda>c. py_in q (py_lower ul (Name c)) \<or>
           py_in q (py_lower ul (Description c)) \<or>
           py_in q (py_lower ul (Discipline c))) cs"
  by (induction cs arbitrary: acc) simp_all

lemma py_slice_window:
  "0 \<le> i \<Longrightarrow> 0 \<le> k \<Longrightarrow> py_slice xs i (i + k) = take (nat k) (drop (nat i) xs)"
  by (auto simp: py_slice_def slice_bound_def Let_def min_def)

lemma add_segments_set:
  "add_segments ds acc = acc \<union> {t. t \<noteq> [] \<and> t \<in> py_strip ` set ds}"
  by (induction ds arbitrary: acc) (auto simp: Let_def)

lemma collect_tokens_set:
  "collect_tokens field cs acc =
     acc \<union> {t. t \<noteq> [] \<and> (\<exists>c\<in>set cs. t \<in> py_strip ` set (split_on CRLF (field c)))}"
  by (induction cs arbitrary: acc) (auto simp: add_segments_set)

lemma finite_collect_tokens: "finite acc \<Longrightarrow> finite (collect_tokens field cs acc)"
proof (induction cs arbitrary: acc)
  case Nil then show ?case by simp
next
  case (Cons c cs)
  have "finite (add_segments ds acc)" if "finite acc" for ds acc
    using that by (induction ds arbitrary: acc) (auto simp: Let_def)
  with Cons show ?case by simp
qed

lemma collect_tokens_empty:
  "collect_tokens field cs {} =
     {t. t \<noteq> [] \<and> (\<exists>c\<in>set cs. t \<in> py_strip ` set (split_on CRLF (field c)))}"
  by (simp add: collect_tokens_set)

lemma tokens_sorted:
  fixes field :: "center \<Rightarrow> pystr" and centers :: "center list"
  defines "S \<equiv> collect_tokens field centers {}"
  shows "set (sorted_list_of_set S) =
       {t. t \<noteq> [] \<and> (\<exists>c\<in>set centers. t \<in> py_strip ` set (split_on CRLF (field c)))} \<and>
     [] \<notin> set (sorted_list_of_set S) \<and> distinct (sorted_list_of_set S) \<and>
     sorted (sorted_list_of_set S) \<and> card S = length (sorted_list_of_set S)"
proof -
  have fin: "finite S"
    unfolding S_def by (rule finite_collect_tokens) simp
  have S: "S = {t. t \<noteq> [] \<and> (\<exists>c\<in>set centers. t \<in> py_strip ` set (split_on CRLF (field c)))}"
    unfolding S_def by (rule collect_tokens_empty)
  have "[] \<notin> S" by (subst S) simp
  with fin S show ?thesis by simp
qed

subsection \<open>The loop of \<open>nearby\<close>\<close>

lemma nearby_loop_step:
  "nearby_loop fp la lo r (c # cs) acc =
     (case center_distance fp la lo c of
        Inl e \<Rightarrow> Inl e
      | Inr d \<Rightarrow>
          nearby_loop fp la lo r cs
            (if d \<le> r then acc @ [\<lparr>entries = c, distance_km = f_round fp d 2\<rparr>] else acc))"
  by (simp add: center_distance_def split: sum.splits)

lemma nearby_loop_returns:
  "list_all (\<lambda>c. \<not> isl (center_distance fp la lo c)) cs \<Longrightarrow>
   nearby_loop fp la lo r cs acc =
     Inr (acc @ map (annotate fp la lo) (filter (in_radius fp la lo r) cs))"
proof (induction cs arbitrary: acc)
  case Nil
  then show ?case by simp
next
  case (Cons c cs)
  then obtain d where d: "center_distance fp la lo c = Inr d"
    by (cases "center_distance fp la lo c") auto
  from Cons show ?case
    unfolding nearby_loop_step by (simp add: d in_radius_def annotate_def)
qed

lemma nearby_loop_faults:
  "\<not> list_all (\<lambda>c. \<not> isl (center_distance fp la lo c)) cs \<Longrightarrow>
   isl (nearby_loop fp la lo r cs acc)"
proof (induction cs arbitrary: acc)
  case Nil
  then show ?case by simp
next
  case (Cons c cs)
  then show ?case
    unfolding nearby_loop_step by (cases "center_distance fp la lo c") auto
qed

lemma nearby_loop_fault_kind:
  "nearby_loop fp la lo r cs acc = Inl e \<Longrightarrow>
   \<exists>c\<in>set cs. center_distance fp la lo c = Inl e"
proof (induction cs arbitrary: acc)
  case Nil
  then show ?case by simp
next
  case (Cons c cs)
  then show ?case
    unfolding nearby_loop_step by (cases "center_distance fp la lo c") auto
qed

lemma get_nearby_centers_returns:
  assumes "get_nearby_centers fp centers (Some la) (Some lo) (Some r) = Inr res"
  shows "1 \<le> r \<and> r \<le> 500 \<and>
     list_all (\<lambda>c. \<not> isl (center_distance fp la lo c)) centers \<and>
     res = \<lparr>location = (la, lo), radius_km = r,
            nearby_response.count = length (filter (in_radius fp la lo r) centers),
            nearby_response.data =
              sort_key distance_km (map (annotate fp la lo) (filter (in_radius fp la lo r) centers))\<rparr>"
proof -
  from assms have r: "1 \<le> r" "r \<le> 500"
    by (auto simp: get_nearby_centers_def split: if_splits)
  have all: "list_all (\<lambda>c. \<not> isl (center_distance fp la lo c)) centers"
  proof (rule ccontr)
    assume "\<not> ?thesis"
    then have "isl (nearby_loop fp la lo r centers [])" by (rule nearby_loop_faults)
    with assms r show False
      by (auto simp: get_nearby_centers_def isl_def)
  qed
  from assms r show ?thesis
    by (auto simp: get_nearby_centers_def nearby_loop_returns [OF all] all)
qed

lemma hd_sort_key_min:
  assumes x: "x \<in> set xs" and least: "\<forall>y\<in>set xs. f x \<le> f y"
  shows "hd (sort_key f xs) = hd (filter (\<lambda>y. f y = f x) xs)"
proof -
  define ys where "ys = sort_key f xs"
  have set_ys: "set ys = set xs" and srt: "sorted (map f ys)"
    by (simp_all add: ys_def)
  from x set_ys obtain z zs where ys: "ys = z # zs"
    by (cases ys) auto
  have "z \<in> set xs" using set_ys ys by auto
  with least have "f x \<le> f z" by blast
  moreover have "f z \<le> f x"
    using srt x set_ys by (auto simp: ys)
  ultimately have fz: "f z = f x" by simp
  have "filter (\<lambda>y. f y = f x) xs = filter (\<lambda>y. f y = f x) ys"
    unfolding ys_def by (rule sort_key_stable [symmetric])
  also have "\<dots> = z # filter (\<lambda>y. f y = f x) zs"
    by (simp add: ys fz)
  finally show ?thesis by (simp add: ys_def [symmetric] ys)
qed

lemma center_distance_same_point:
  assumes "exact_at_zero fp" and "lat c = Number la" and "lng c = Number lo"
  shows "center_distance fp la lo c = Inr 0"
  using assms
  by (simp add: exact_at_zero_def center_distance_def haversine_distance_def haversine_a_def
      math_sqrt_def math_asin_def)

lemma haversine_distance_returns:
  assumes "haversine_distance fp lat1 lon1 lat2 lon2 = Inr d"
  defines "a \<equiv> haversine_a fp (f_radians fp lat1) (f_radians fp lon1)
      (f_radians fp lat2) (f_radians fp lon2)"
  shows "0 \<le> a \<and> - 1 \<le> f_sqrt fp a \<and> f_sqrt fp a \<le> 1 \<and>
     d = f_mul fp 6371 (f_mul fp 2 (f_asin fp (f_sqrt fp a)))"
  using assms(1) unfolding a_def
  by (simp add: haversine_distance_def math_sqrt_def math_asin_def Let_def not_less
      split: if_splits)

lemma center_distance_nonneg:
  assumes "keeps_sign fp" and "center_distance fp la lo c = Inr d"
  shows "0 \<le> d"
proof -
  from assms(2) obtain x y where "haversine_distance fp la lo x y = Inr d"
    by (auto simp: center_distance_def split: sum.splits)
  from haversine_distance_returns [OF this]
  obtain a where a: "0 \<le> a"
    and s: "- 1 \<le> f_sqrt fp a" "f_sqrt fp a \<le> 1"
    and d: "d = f_mul fp 6371 (f_mul fp 2 (f_asin fp (f_sqrt fp a)))"
    by blast
  from assms(1) a have "0 \<le> f_sqrt fp a" by (simp add: keeps_sign_def)
  with assms(1) s have "0 \<le> f_asin fp (f_sqrt fp a)" by (simp add: keeps_sign_def)
  with assms(1) have "0 \<le> f_mul fp 2 (f_asin fp (f_sqrt fp a))" by (simp add: keeps_sign_def)
  with assms(1) show ?thesis unfolding d by (simp add: keeps_sign_def)
qed

lemma annotate_nonneg:
  assumes "keeps_sign fp"
  shows "0 \<le> distance_km (annotate fp la lo c)"
proof (cases "center_distance fp la lo c")
  case (Inl e)
  then show ?thesis by (simp add: annotate_def)
next
  case (Inr d)
  with assms have "0 \<le> d" by (simp add: center_distance_nonneg)
  with assms Inr show ?thesis by (simp add: annotate_def keeps_sign_def)
qed

lemma round_half_even_nonneg: "0 \<le> y \<Longrightarrow> 0 \<le> round_half_even y"
  by (auto simp: round_half_even_def Let_def)

lemma traced_ops_exact_at_zero: "exact_at_zero traced_ops"
  by (simp add: exact_at_zero_def traced_ops_def traced_sub_def traced_div_def traced_sin_def
      traced_pow_def traced_mul_def traced_add_def traced_sqrt_def traced_asin_def
      round_to_def round_half_even_def)

lemma traced_ops_keeps_sign: "keeps_sign traced_ops"
proof -
  have "0 \<le> traced_asin x" if "0 \<le> x" "x \<le> 1" for x
    using that arcsin_nonneg [of x] by (simp add: traced_asin_def)
  moreover have "0 \<le> round_to x 2" if "0 \<le> x" for x
    using that by (simp add: round_to_def round_half_even_nonneg)
  moreover have "0 \<le> traced_mul x y" if "0 \<le> x" "0 \<le> y" for x y
    using that by (simp add: traced_mul_def)
  moreover have "0 \<le> traced_sqrt x" if "0 \<le> x" for x
    using that by (simp add: traced_sqrt_def)
  ultimately show ?thesis
    by (simp add: keeps_sign_def traced_ops_def)
qed

lemma haversine_distance_fault:
  "haversine_distance fp lat1 lon1 lat2 lon2 = Inl e \<Longrightarrow> e = ValueError"
  by (auto simp: haversine_distance_def math_sqrt_def math_asin_def Let_def
      split: if_splits sum.splits)

lemma haversine_distance_negative_term:
  "haversine_a fp (f_radians fp lat1) (f_radians fp lon1) (f_radians fp lat2) (f_radians fp lon2) < 0
   \<Longrightarrow> haversine_distance fp lat1 lon1 lat2 lon2 = Inl ValueError"
  by (simp add: haversine_distance_def math_sqrt_def)

subsection \<open>Runs on the traced doubles\<close>

lemma haversine_a_v19:
  "haversine_a traced_ops (f_radians traced_ops 492.61) (f_radians traced_ops 180.69)
     (f_radians traced_ops 47.39) (f_radians traced_ops 0.69) = - 0.00000000000000005551115123125783"
  by (simp add: haversine_a_def traced_ops_def traced_radians_def traced_sub_def traced_div_def
      traced_sin_def traced_pow_def traced_cos_def traced_mul_def traced_add_def)

lemma center_distance_east_a:
  "center_distance traced_ops 0 0 center_east_a = Inr 1.007203645546413"
  by (simp add: center_distance_def center_east_a_def center_east_b_def haversine_distance_def haversine_a_def
      math_sqrt_def math_asin_def traced_ops_def traced_radians_def traced_sub_def traced_div_def
      traced_sin_def traced_pow_def traced_cos_def traced_mul_def traced_add_def
      traced_sqrt_def traced_asin_def)

lemma center_distance_east_b:
  "center_distance traced_ops 0 0 center_east_b = Inr 1.0063140861332567"
  by (simp add: center_distance_def center_east_a_def center_east_b_def haversine_distance_def haversine_a_def
      math_sqrt_def math_asin_def traced_ops_def traced_radians_def traced_sub_def traced_div_def
      traced_sin_def traced_pow_def traced_cos_def traced_mul_def traced_add_def
      traced_sqrt_def traced_asin_def)

lemma round_to_examples:
  "round_to 1.007203645546413 2 = 1.01" "round_to 1.0063140861332567 2 = 1.01" "round_to 0 2 = 0"
  by (simp_all add: round_to_def round_half_even_def Let_def)

lemma get_nearby_centers_closed:
  assumes "1 \<le> r" "r \<le> 500"
      and "list_all (\<lambda>c. \<not> isl (center_distance fp la lo c)) centers"
  shows "get_nearby_centers fp centers (Some la) (Some lo) (Some r) =
     Inr \<lparr>location = (la, lo), radius_km = r,
          nearby_response.count = length (filter (in_radius fp la lo r) centers),
          nearby_response.data =
            sort_key distance_km (map (annotate fp la lo) (filter (in_radius fp la lo r) centers))\<rparr>"
  using assms by (simp add: get_nearby_centers_def nearby_loop_returns)

lemma traced_same_point:
  "lat c = Number la \<Longrightarrow> lng c = Number lo \<Longrightarrow> center_distance traced_ops la lo c = Inr 0"
  by (rule center_distance_same_point [OF traced_ops_exact_at_zero])

lemma traced_round [simp]: "f_round traced_ops = round_to"
  by (simp add: traced_ops_def)

lemma traced_run_east:
  "get_nearby_centers traced_ops [center_east_a, center_east_b] (Some 0) (Some 0) (Some 1.008) =
     Inr \<lparr>location = (0, 0), radius_km = 1.008, nearby_response.count = 2,
          nearby_response.data = [\<lparr>entries = center_east_a, distance_km = 1.01\<rparr>,
                                  \<lparr>entries = center_east_b, distance_km = 1.01\<rparr>]\<rparr>"
  by (subst get_nearby_centers_closed)
     (simp_all add: center_distance_east_a center_distance_east_b in_radius_def annotate_def
        round_to_def round_half_even_def Let_def)

lemma traced_run_same_point:
  assumes "lat c1 = Number la" "lng c1 = Number lo" "lat c2 = Number la" "lng c2 = Number lo"
      and "1 \<le> r" "r \<le> 500"
  shows "get_nearby_centers traced_ops [c1, c2] (Some la) (Some lo) (Some r) =
     Inr \<lparr>location = (la, lo), radius_km = r, nearby_response.count = 2,
          nearby_response.data = [\<lparr>entries = c1, distance_km = 0\<rparr>,
                                  \<lparr>entries = c2, distance_km = 0\<rparr>]\<rparr>"
proof -
  have t: "center_distance traced_ops la lo c1 = Inr 0"
    by (rule traced_same_point) (fact assms)+
  have p: "center_distance traced_ops la lo c2 = Inr 0"
    by (rule traced_same_point) (fact assms)+
  show ?thesis
    using assms(5,6)
    by (subst get_nearby_centers_closed)
       (simp_all add: t p in_radius_def annotate_def round_to_def round_half_even_def)
qed

lemma traced_run_tours:
  "get_nearby_centers traced_ops [center_tours, center_piscine] (Some 47.39) (Some 0.69) (Some 50) =
     Inr \<lparr>location = (47.39, 0.69), radius_km = 50, nearby_response.count = 2,
          nearby_response.data = [\<lparr>entries = center_tours, distance_km = 0\<rparr>,
                                  \<lparr>entries = center_piscine, distance_km = 0\<rparr>]\<rparr>"
  by (rule traced_run_same_point) (simp_all add: center_tours_def center_piscine_def)

lemma traced_run_origin:
  "get_nearby_centers traced_ops [center_east_b, center_origin, center_origin_2]
     (Some 0) (Some 0) (Some 50) =
     Inr \<lparr>location = (0, 0), radius_km = 50, nearby_response.count = 3,
          nearby_response.data = [\<lparr>entries = center_origin, distance_km = 0\<rparr>,
                                  \<lparr>entries = center_origin_2, distance_km = 0\<rparr>,
                                  \<lparr>entries = center_east_b, distance_km = 1.01\<rparr>]\<rparr>"
proof -
  have o: "center_distance traced_ops 0 0 center_origin = Inr 0"
    by (rule traced_same_point) (simp_all add: center_origin_def)
  have p: "center_distance traced_ops 0 0 center_origin_2 = Inr 0"
    by (rule traced_same_point) (simp_all add: center_origin_2_def)
  show ?thesis
    by (subst get_nearby_centers_closed)
       (simp_all add: o p center_distance_east_b in_radius_def annotate_def round_to_def
          round_half_even_def Let_def)
qed

subsection \<open>The handlers on the heap\<close>

lemma nearby_loop_st_step:
  "nearby_loop_st fp la lo r (a # as) h results =
     (case center_distance fp la lo (fields_of (h ! a)) of
        Inl e \<Rightarrow> (Inl e, h)
      | Inr d \<Rightarrow>
          if d \<le> r
          then nearby_loop_st fp la lo r as
                 (h @ [NearbyDict \<lparr>entries = fields_of (h ! a), distance_km = f_round fp d 2\<rparr>])
                 (results @ [length h])
          else nearby_loop_st fp la lo r as h results)"
  by (simp add: center_distance_def Let_def split: sum.splits)

lemma nearby_loop_st_grows: "prefix h (snd (nearby_loop_st fp la lo r as h results))"
proof (induction as arbitrary: h results)
  case Nil
  then show ?case by simp
next
  case (Cons a as)
  have "prefix h (snd (nearby_loop_st fp la lo r as (h @ ys) res))" for ys res
    using Cons.IH [of "h @ ys" res] by (meson prefix_order.trans prefixI)
  with Cons.IH show ?case
    unfolding nearby_loop_st_step by (auto split: sum.splits)
qed

lemma fields_after_append:
  "list_all (\<lambda>a. a < length h) as \<Longrightarrow>
   map (\<lambda>a. fields_of ((h @ ys) ! a)) as = map (\<lambda>a. fields_of (h ! a)) as"
  by (auto simp: list_all_iff nth_append)

lemma refs_after_append:
  "list_all (\<lambda>a. a < length h) as \<Longrightarrow> list_all (\<lambda>a. a < length (h @ ys)) as"
  by (auto simp: list_all_iff)

lemma nearby_loop_st_returns:
  assumes "list_all (\<lambda>a. a < length h) as"
      and "list_all (\<lambda>c. \<not> isl (center_distance fp la lo c)) (map (\<lambda>a. fields_of (h ! a)) as)"
  shows "nearby_loop_st fp la lo r as h results =
     (Inr (results @ [length h ..< length h +
              length (filter (in_radius fp la lo r) (map (\<lambda>a. fields_of (h ! a)) as))]),
      h @ map NearbyDict
            (map (annotate fp la lo)
               (filter (in_radius fp la lo r) (map (\<lambda>a. fields_of (h ! a)) as))))"
  using assms
proof (induction as arbitrary: h results)
  case Nil
  then show ?case by simp
next
  case (Cons a as)
  let ?c = "fields_of (h ! a)"
  from Cons.prems have as: "list_all (\<lambda>a. a < length h) as"
    and cs: "list_all (\<lambda>c. \<not> isl (center_distance fp la lo c)) (map (\<lambda>a. fields_of (h ! a)) as)"
    by simp_all
  from Cons.prems obtain d where d: "center_distance fp la lo ?c = Inr d"
    by (cases "center_distance fp la lo ?c") auto
  let ?d = "NearbyDict \<lparr>entries = ?c, distance_km = f_round fp d 2\<rparr>"
  have ann: "annotate fp la lo ?c = \<lparr>entries = ?c, distance_km = f_round fp d 2\<rparr>"
    by (simp add: annotate_def d)
  have inr: "in_radius fp la lo r ?c \<longleftrightarrow> d \<le> r"
    by (simp add: in_radius_def d)
  show ?case
  proof (cases "d \<le> r")
    case True
    have step: "nearby_loop_st fp la lo r (a # as) h results =
        nearby_loop_st fp la lo r as (h @ [?d]) (results @ [length h])"
      unfolding nearby_loop_st_step using True by (simp add: d)
    have "nearby_loop_st fp la lo r as (h @ [?d]) (results @ [length h]) =
       (Inr ((results @ [length h]) @ [length (h @ [?d]) ..< length (h @ [?d]) +
              length (filter (in_radius fp la lo r) (map (\<lambda>a. fields_of (h ! a)) as))]),
        (h @ [?d]) @ map NearbyDict
            (map (annotate fp la lo)
               (filter (in_radius fp la lo r) (map (\<lambda>a. fields_of (h ! a)) as))))"
      using Cons.IH [OF refs_after_append [OF as], of "[?d]" "results @ [length h]"] cs
      unfolding fields_after_append [OF as] by simp
    moreover have "[k ..< Suc (k + n)] = k # [Suc k ..< Suc (k + n)]" for k n :: nat
      by (subst upt_rec) simp
    ultimately show ?thesis
      unfolding step using True by (simp add: ann inr)
  next
    case False
    have step: "nearby_loop_st fp la lo r (a # as) h results = nearby_loop_st fp la lo r as h results"
      unfolding nearby_loop_st_step using False by (simp add: d)
    show ?thesis
      unfolding step using Cons.IH [OF as cs, of results] False by (simp add: inr)
  qed
qed

lemma nearby_loop_st_faults:
  assumes "list_all (\<lambda>a. a < length h) as"
      and "nearby_loop fp la lo r (map (\<lambda>a. fields_of (h ! a)) as) acc = Inl e"
  shows "fst (nearby_loop_st fp la lo r as h results) = Inl e"
  using assms
proof (induction as arbitrary: h results acc)
  case Nil
  then show ?case by simp
next
  case (Cons a as)
  let ?c = "fields_of (h ! a)"
  from Cons.prems have as: "list_all (\<lambda>a. a < length h) as" by simp
  show ?case
  proof (cases "center_distance fp la lo ?c")
    case (Inl e')
    with Cons.prems(2) have "e' = e"
      by (simp add: nearby_loop_step del: nearby_loop.simps)
    with Inl show ?thesis
      unfolding nearby_loop_st_step by simp
  next
    case (Inr d)
    from Cons.prems(2) Inr obtain acc' where
      pure: "nearby_loop fp la lo r (map (\<lambda>a. fields_of (h ! a)) as) acc' = Inl e"
      by (simp add: nearby_loop_step del: nearby_loop.simps)
    have a: "fst (nearby_loop_st fp la lo r as h results) = Inl e"
      using Cons.IH [OF as pure] .
    have b: "fst (nearby_loop_st fp la lo r as (h @ ys) res) = Inl e" for ys res
      using Cons.IH [OF refs_after_append [OF as], of ys acc' res] pure
      unfolding fields_after_append [OF as] by simp
    from a b Inr show ?thesis
      unfolding nearby_loop_st_step by simp
  qed
qed

lemma insort_key_map: "map g (insort_key (\<lambda>a. f (g a)) x xs) = insort_key f (g x) (map g xs)"
  by (induction xs) simp_all

lemma sort_key_map: "map g (sort_key (f \<circ> g) xs) = sort_key f (map g xs)"
  by (induction xs) (simp_all add: o_def insort_key_map)

lemma map_nth_appended: "map ((!) (h @ ys)) [length h ..< length h + length ys] = ys"
  by (rule nth_equalityI) (simp_all add: nth_append)

lemma decorate_closed:
  "list_all (\<lambda>a. \<exists>n. h ! a = NearbyDict n) as \<Longrightarrow>
   decorate h as = Inr (map (\<lambda>a. (projr (distance_entry (h ! a)), a)) as)"
  by (induction as) auto

lemma sort_by_distance_km_closed:
  assumes "list_all (\<lambda>a. \<exists>n. h ! a = NearbyDict n) as"
  shows "sort_by_distance_km h as = Inr (sort_key (\<lambda>a. projr (distance_entry (h ! a))) as)"
proof -
  let ?key = "\<lambda>a. projr (distance_entry (h ! a))"
  let ?g = "\<lambda>a. (?key a, a)"
  have "sort_key fst (map ?g as) = map ?g (sort_key (fst \<circ> ?g) as)"
    by (rule sort_key_map [symmetric])
  then have "map snd (sort_key fst (map ?g as)) = sort_key ?key as"
    by (simp add: o_def)
  then show ?thesis
    by (simp add: sort_by_distance_km_def decorate_closed [OF assms])
qed

lemma sorted_copies:
  fixes xs :: "nearby_center list"
  defines "h' \<equiv> \<lambda>h. h @ map NearbyDict xs"
  shows "sort_by_distance_km (h' h) [length h ..< length h + length xs] =
           Inr (sort_key (\<lambda>a. projr (distance_entry (h' h ! a))) [length h ..< length h + length xs]) \<and>
         map ((!) (h' h)) (sort_key (\<lambda>a. projr (distance_entry (h' h ! a)))
              [length h ..< length h + length xs]) =
           map NearbyDict (sort_key distance_km xs)"
proof -
  let ?refs = "[length h ..< length h + length xs]"
  let ?dk = "\<lambda>d. projr (distance_entry d)"
  have nth: "map ((!) (h' h)) ?refs = map NearbyDict xs"
    unfolding h'_def using map_nth_appended [of h "map NearbyDict xs"] by simp
  have "list_all (\<lambda>a. \<exists>n. h' h ! a = NearbyDict n) ?refs"
    by (auto simp: list_all_iff h'_def nth_append)
  then have a: "sort_by_distance_km (h' h) ?refs =
      Inr (sort_key (\<lambda>a. projr (distance_entry (h' h ! a))) ?refs)"
    by (rule sort_by_distance_km_closed)
  have "map ((!) (h' h)) (sort_key (?dk \<circ> (!) (h' h)) ?refs) = sort_key ?dk (map ((!) (h' h)) ?refs)"
    by (rule sort_key_map)
  also have "\<dots> = sort_key ?dk (map NearbyDict xs)"
    by (simp only: nth)
  also have "\<dots> = map NearbyDict (sort_key (?dk \<circ> NearbyDict) xs)"
    by (rule sort_key_map [symmetric])
  also have "?dk \<circ> NearbyDict = distance_km"
    by (rule ext) simp
  finally have b: "map ((!) (h' h)) (sort_key (\<lambda>a. projr (distance_entry (h' h ! a))) ?refs) =
      map NearbyDict (sort_key distance_km xs)"
    by (simp add: o_def)
  from a b show ?thesis by simp
qed

lemma get_nearby_centers_st_refines:
  assumes "valid_refs p"
  shows "fst (get_nearby_centers_st fp lat_p lng_p radius_p p) =
     (case get_nearby_centers fp (collection p) lat_p lng_p radius_p of
        Inl e \<Rightarrow> Inl e | Inr res \<Rightarrow> Inr (json_body res))"
proof (cases "\<exists>la lo. lat_p = Some la \<and> lng_p = Some lo \<and>
    1 \<le> (case radius_p of None \<Rightarrow> 50 | Some r \<Rightarrow> r) \<and> (case radius_p of None \<Rightarrow> 50 | Some r \<Rightarrow> r) \<le> 500")
  case False
  then show ?thesis
    by (auto simp: get_nearby_centers_st_def get_nearby_centers_def Let_def split: option.splits)
next
  case True
  then obtain la lo where p: "lat_p = Some la" "lng_p = Some lo" by blast
  define r where "r = (case radius_p of None \<Rightarrow> 50 | Some r \<Rightarrow> r)"
  from True have r: "1 \<le> r" "r \<le> 500" by (simp_all add: r_def)
  let ?cs = "collection p"
  have refs: "list_all (\<lambda>a. a < length (heap p)) (center_refs p)"
    using assms by (simp add: valid_refs_def)
  have cs: "?cs = map (\<lambda>a. fields_of (heap p ! a)) (center_refs p)"
    by (simp add: collection_def)
  show ?thesis
  proof (cases "list_all (\<lambda>c. \<not> isl (center_distance fp la lo c)) ?cs")
    case ok: True
    let ?xs = "map (annotate fp la lo) (filter (in_radius fp la lo r) ?cs)"
    have loop: "nearby_loop_st fp la lo r (center_refs p) (heap p) [] =
        (Inr [length (heap p) ..< length (heap p) + length ?xs], heap p @ map NearbyDict ?xs)"
      using nearby_loop_st_returns [OF refs ok [unfolded cs], of r "[]"]
      by (simp add: cs)
    have pure: "nearby_loop fp la lo r ?cs [] = Inr ?xs"
      using ok by (simp add: nearby_loop_returns)
    note srt = sorted_copies [of "heap p" ?xs]
    show ?thesis
      using r srt
      by (simp add: get_nearby_centers_st_def get_nearby_centers_def Let_def p r_def [symmetric]
          loop pure json_body_def)
  next
    case bad: False
    then have "isl (nearby_loop fp la lo r ?cs [])"
      by (rule nearby_loop_faults)
    then obtain e where pure: "nearby_loop fp la lo r ?cs [] = Inl e"
      by (auto simp: isl_def)
    have "fst (nearby_loop_st fp la lo r (center_refs p) (heap p) []) = Inl e"
      using nearby_loop_st_faults [OF refs pure [unfolded cs]] .
    then obtain h where loop: "nearby_loop_st fp la lo r (center_refs p) (heap p) [] = (Inl e, h)"
      by (cases "nearby_loop_st fp la lo r (center_refs p) (heap p) []") simp
    show ?thesis
      using r
      by (simp add: get_nearby_centers_st_def get_nearby_centers_def Let_def p r_def [symmetric]
          loop pure)
  qed
qed

lemma get_nearby_centers_st_state:
  "center_refs (snd (get_nearby_centers_st fp lat_p lng_p radius_p p)) = center_refs p \<and>
   prefix (heap p) (heap (snd (get_nearby_centers_st fp lat_p lng_p radius_p p)))"
proof -
  have "prefix (heap p) h"
    if "nearby_loop_st fp la lo r (center_refs p) (heap p) [] = (x, h)" for la lo r x h
    using nearby_loop_st_grows [of "heap p" fp la lo r "center_refs p" "[]"] that by simp
  then show ?thesis
    by (auto simp: get_nearby_centers_st_def Let_def split: option.splits prod.splits sum.splits)
qed

lemma handle_Nearby:
  "fst (handle fp ul (Nearby lat_p lng_p radius_p) p) =
     reply NearbyBody (fst (get_nearby_centers_st fp lat_p lng_p radius_p p))"
  "snd (handle fp ul (Nearby lat_p lng_p radius_p) p) =
     snd (get_nearby_centers_st fp lat_p lng_p radius_p p)"
  by (simp_all split: prod.splits)

lemma handle_state:
  "center_refs (snd (handle fp ul req p)) = center_refs p \<and>
   prefix (heap p) (heap (snd (handle fp ul req p)))"
proof (cases req)
  case (Nearby lat_p lng_p radius_p)
  show ?thesis
    unfolding Nearby handle_Nearby by (rule get_nearby_centers_st_state)
qed simp_all

lemma stored_dicts_kept:
  assumes "valid_refs p" and "center_refs p' = center_refs p" and "prefix (heap p) (heap p')"
  shows "valid_refs p' \<and>
     map ((!) (heap p')) (center_refs p') = map ((!) (heap p)) (center_refs p) \<and>
     collection p' = collection p"
proof -
  from assms(3) obtain ys where h: "heap p' = heap p @ ys"
    by (auto simp: prefix_def)
  have lt: "\<forall>a\<in>set (center_refs p). a < length (heap p)"
    using assms(1) by (simp add: valid_refs_def list_all_iff)
  then have "valid_refs p'"
    by (auto simp: valid_refs_def list_all_iff assms(2) h)
  moreover have "map ((!) (heap p')) (center_refs p') = map ((!) (heap p)) (center_refs p)"
    using lt by (simp add: assms(2) h nth_append)
  moreover have "collection p' = collection p"
    using lt by (simp add: collection_def assms(2) h nth_append)
  ultimately show ?thesis by simp
qed

lemma handle_reads_collection:
  assumes "valid_refs p" and "valid_refs q" and "collection p = collection q"
  shows "fst (handle fp ul req p) = fst (handle fp ul req q)"
proof (cases req)
  case (Nearby lat_p lng_p radius_p)
  show ?thesis
    unfolding Nearby handle_Nearby get_nearby_centers_st_refines [OF assms(1), of fp]
      get_nearby_centers_st_refines [OF assms(2), of fp] assms(3) ..
qed (simp_all add: assms(3))

lemma run_state:
  "valid_refs p \<Longrightarrow>
   valid_refs (run fp ul reqs p) \<and>
   center_refs (run fp ul reqs p) = center_refs p \<and>
   map ((!) (heap (run fp ul reqs p))) (center_refs p) = map ((!) (heap p)) (center_refs p) \<and>
   collection (run fp ul reqs p) = collection p"
proof (induction reqs arbitrary: p)
  case Nil
  then show ?case by simp
next
  case (Cons req reqs)
  let ?p = "snd (handle fp ul req p)"
  have kept: "valid_refs ?p \<and>
     map ((!) (heap ?p)) (center_refs ?p) = map ((!) (heap p)) (center_refs p) \<and>
     collection ?p = collection p" and refs: "center_refs ?p = center_refs p"
    using stored_dicts_kept [OF Cons.prems, of ?p] handle_state [of fp ul req p] by simp_all
  from Cons.IH [of ?p] kept refs show ?case by simp
qed

lemma load_centers_state:
  "valid_refs (load_centers dataset) \<and>
   map ((!) (heap (load_centers dataset))) (center_refs (load_centers dataset)) = map CenterDict dataset \<and>
   collection (load_centers dataset) = dataset"
proof -
  have "map ((!) (map CenterDict dataset)) [0 ..< length dataset] = map CenterDict dataset"
    using map_nth [of "map CenterDict dataset"] by simp
  moreover have "map (\<lambda>a. fields_of (map CenterDict dataset ! a)) [0 ..< length dataset] = dataset"
    by (rule nth_equalityI) simp_all
  ultimately show ?thesis
    by (simp add: load_centers_def valid_refs_def collection_def list_all_iff)
qed

section \<open>Properties of the endpoints\<close>

text \<open>
  C5: for \<open>limit\<close> in 1..500 and \<open>offset\<close> at least 0, the list-all endpoint reports the size
  of the collection as \<open>total\<close> and returns as \<open>data\<close> the \<open>limit\<close> records that follow the first
  \<open>offset\<close> ones, as many as there are: \<open>min limit (total - offset)\<close> of them, none when
  \<open>offset\<close> is not below \<open>total\<close>. Any other \<open>limit\<close> or \<open>offset\<close> is rejected. A parameter left
  out takes its default, 100 or 0.
\<close>

theorem get_all_centers_slice:
  "(1 \<le> n \<and> n \<le> 500 \<and> 0 \<le> k \<longrightarrow>
      get_all_centers centers (Some n) (Some k) =
        Inr \<lparr>total = length centers, limit = n, offset = k,
             all_response.data = take (nat n) (drop (nat k) centers)\<rparr> \<and>
      int (length (take (nat n) (drop (nat k) centers))) =
        (if int (length centers) \<le> k then 0 else min n (int (length centers) - k))) \<and>
   (n < 1 \<or> 500 < n \<or> k < 0 \<longrightarrow>
      get_all_centers centers (Some n) (Some k) = Inl RequestValidationError) \<and>
   get_all_centers centers None p = get_all_centers centers (Some 100) p \<and>
   get_all_centers centers q None = get_all_centers centers q (Some 0)"
proof (intro conjI impI)
  assume ok: "1 \<le> n \<and> n \<le> 500 \<and> 0 \<le> k"
  then have "py_slice centers k (k + n) = take (nat n) (drop (nat k) centers)"
    by (simp add: py_slice_window)
  with ok show "get_all_centers centers (Some n) (Some k) =
        Inr \<lparr>total = length centers, limit = n, offset = k,
             all_response.data = take (nat n) (drop (nat k) centers)\<rparr>"
    by (simp add: get_all_centers_def)
  from ok show "int (length (take (nat n) (drop (nat k) centers))) =
      (if int (length centers) \<le> k then 0 else min n (int (length centers) - k))"
    by auto
next
  assume "n < 1 \<or> 500 < n \<or> k < 0"
  then show "get_all_centers centers (Some n) (Some k) = Inl RequestValidationError"
    by (auto simp: get_all_centers_def)
qed (simp_all add: get_all_centers_def)

theorem get_all_centers_slice_witness:
  "get_all_centers [center_tours, center_piscine, center_tours] (Some 2) (Some 1) =
     Inr \<lparr>total = 3, limit = 2, offset = 1, all_response.data = [center_piscine, center_tours]\<rparr> \<and>
   get_all_centers [center_tours, center_piscine] (Some 501) (Some 0) = Inl RequestValidationError"
  using get_all_centers_slice [of 2 1 "[center_tours, center_piscine, center_tours]"]
    get_all_centers_slice [of 501 0 "[center_tours, center_piscine]"]
  by simp

text \<open>
  C6: looking up an id that some record carries returns a record of the collection with
  that id; looking up any other id raises the 404 \<open>HTTPException\<close> whose detail quotes the
  id, which is never the validation fault.
\<close>

theorem get_center_by_id_spec:
  "(cid \<in> center_id ` set centers \<longrightarrow>
     (\<exists>c. get_center_by_id centers cid = Inr c \<and> c \<in> set centers \<and> center_id c = cid)) \<and>
   (cid \<notin> center_id ` set centers \<longrightarrow>
     get_center_by_id centers cid =
       Inl (HTTPException 404 (str ''Center with id '' @ cid @ str '' not found''))) \<and>
   get_center_by_id centers cid \<noteq> Inl RequestValidationError"
  by (induction centers) auto

theorem get_center_by_id_spec_witness:
  "get_center_by_id [center_tours, center_piscine] (str ''c2'') = Inr center_piscine \<and>
   get_center_by_id [center_tours, center_piscine] (str ''c9'') =
     Inl (HTTPException 404 (str ''Center with id c9 not found''))"
proof -
  have "str ''c2'' \<in> center_id ` set [center_tours, center_piscine]"
    by (simp add: center_piscine_def)
  with get_center_by_id_spec [of "str ''c2''" "[center_tours, center_piscine]"]
  have a: "\<exists>c. get_center_by_id [center_tours, center_piscine] (str ''c2'') = Inr c \<and> center_id c = str ''c2''"
    by blast
  have "str ''c9'' \<notin> center_id ` set [center_tours, center_piscine]"
    by (simp add: center_piscine_def center_tours_def str_def)
  with get_center_by_id_spec [of "str ''c9''" "[center_tours, center_piscine]"]
  have b: "get_center_by_id [center_tours, center_piscine] (str ''c9'') =
       Inl (HTTPException 404 (str ''Center with id '' @ str ''c9'' @ str '' not found''))"
    by blast
  from a have "get_center_by_id [center_tours, center_piscine] (str ''c2'') = Inr center_piscine"
    by (auto simp: center_tours_def center_piscine_def str_def split: if_splits)
  with b show ?thesis by (simp add: str_def)
qed

text \<open>
  C2: a keyword shorter than two characters is rejected. For a longer keyword \<open>q\<close> the
  search returns, in collection order, exactly the records in which the lowercased \<open>q\<close>
  occurs in the lowercased name, description or raw discipline field; so each returned
  record has one of the three occurrences, and \<open>count\<close> is the number returned.
\<close>

theorem search_centers_spec:
  "(length q < 2 \<longrightarrow> search_centers ul centers (Some q) = Inl RequestValidationError) \<and>
   (2 \<le> length q \<longrightarrow>
      (\<exists>r. search_centers ul centers (Some q) = Inr r \<and>
           search_response.data r =
             filter (\<lambda>c. sublist (py_lower ul q) (py_lower ul (Name c)) \<or>
                         sublist (py_lower ul q) (py_lower ul (Description c)) \<or>
                         sublist (py_lower ul q) (py_lower ul (Discipline c))) centers \<and>
           (\<forall>c \<in> set (search_response.data r).
               sublist (py_lower ul q) (py_lower ul (Name c)) \<or>
               sublist (py_lower ul q) (py_lower ul (Description c)) \<or>
               sublist (py_lower ul q) (py_lower ul (Discipline c))) \<and>
           search_response.count r = length (search_response.data r) \<and> query r = q))"
  by (simp add: search_centers_def search_loop_filter py_in_sublist Let_def)

theorem search_centers_spec_witness:
  "search_centers id [center_tours, center_piscine] (Some (str ''t'')) = Inl RequestValidationError \<and>
   search_centers id [center_tours, center_piscine] (Some (str ''BASS'')) =
     Inr \<lparr>query = str ''BASS'', search_response.count = 1, search_response.data = [center_piscine]\<rparr>"
proof -
  have short: "length (str ''t'') < 2" and long: "2 \<le> length (str ''BASS'')"
    by (simp_all add: str_def)
  have a: "search_centers id [center_tours, center_piscine] (Some (str ''t'')) = Inl RequestValidationError"
    using search_centers_spec [of "str ''t''" id "[center_tours, center_piscine]"] short by blast
  obtain r where r: "search_centers id [center_tours, center_piscine] (Some (str ''BASS'')) = Inr r"
      "search_response.data r =
             filter (\<lambda>c. sublist (py_lower id (str ''BASS'')) (py_lower id (Name c)) \<or>
                         sublist (py_lower id (str ''BASS'')) (py_lower id (Description c)) \<or>
                         sublist (py_lower id (str ''BASS'')) (py_lower id (Discipline c)))
               [center_tours, center_piscine]"
      "search_response.count r = length (search_response.data r)" "query r = str ''BASS''"
    using search_centers_spec [of "str ''BASS''" id "[center_tours, center_piscine]"] long by blast
  have "search_response.data r = [center_piscine]"
    unfolding r(2) py_in_sublist [symmetric]
    by (simp add: center_tours_def center_piscine_def py_lower_def lower_cp_def str_def CRLF_def)
  with r have "r = \<lparr>query = str ''BASS'', search_response.count = 1, search_response.data = [center_piscine]\<rparr>"
    by simp
  with a r(1) show ?thesis by simp
qed

text \<open>
  C3: for every supplied \<open>name\<close> (empty or not), \<open>by_discipline\<close> returns, in collection order,
  exactly the records whose raw discipline field contains \<open>name\<close>, both lowercased, and
  \<open>by_pathology\<close> does the same on the pathologies field. Matching is containment, not
  equality with a token: \<open>tennis\<close> selects a record whose field lists \<open>Basket\<close> and
  \<open>Tennis de table\<close> although none of its tokens, lowercased, is \<open>tennis\<close>.
\<close>

theorem by_discipline_by_pathology_substring:
  fixes c :: center
  defines "field \<equiv> str ''Basket'' @ CRLF @ str ''Tennis de table'' @ CRLF"
  shows
  "get_by_discipline ul centers (Some name) =
     Inr \<lparr>discipline = name,
          discipline_response.count =
            length (filter (\<lambda>c. sublist (py_lower ul name) (py_lower ul (Discipline c))) centers),
          discipline_response.data =
            filter (\<lambda>c. sublist (py_lower ul name) (py_lower ul (Discipline c))) centers\<rparr> \<and>
   get_by_pathology ul centers (Some name) =
     Inr \<lparr>pathology = name,
          pathology_response.count =
            length (filter (\<lambda>c. sublist (py_lower ul name) (py_lower ul (Pathologies c))) centers),
          pathology_response.data =
            filter (\<lambda>c. sublist (py_lower ul name) (py_lower ul (Pathologies c))) centers\<rparr> \<and>
   get_by_discipline ul [c\<lparr>Discipline := field\<rparr>] (Some (str ''tennis'')) =
     Inr \<lparr>discipline = str ''tennis'', discipline_response.count = 1,
          discipline_response.data = [c\<lparr>Discipline := field\<rparr>]\<rparr> \<and>
   get_by_pathology ul [c\<lparr>Pathologies := field\<rparr>] (Some (str ''tennis'')) =
     Inr \<lparr>pathology = str ''tennis'', pathology_response.count = 1,
          pathology_response.data = [c\<lparr>Pathologies := field\<rparr>]\<rparr> \<and>
   map (\<lambda>d. py_lower ul (py_strip d)) (split_on CRLF field) =
     [str ''basket'', str ''tennis de table'', []]"
proof (intro conjI)
  show "get_by_discipline ul centers (Some name) =
     Inr \<lparr>discipline = name,
          discipline_response.count =
            length (filter (\<lambda>c. sublist (py_lower ul name) (py_lower ul (Discipline c))) centers),
          discipline_response.data =
            filter (\<lambda>c. sublist (py_lower ul name) (py_lower ul (Discipline c))) centers\<rparr>"
    by (simp add: get_by_discipline_def py_in_sublist Let_def)
  show "get_by_pathology ul centers (Some name) =
     Inr \<lparr>pathology = name,
          pathology_response.count =
            length (filter (\<lambda>c. sublist (py_lower ul name) (py_lower ul (Pathologies c))) centers),
          pathology_response.data =
            filter (\<lambda>c. sublist (py_lower ul name) (py_lower ul (Pathologies c))) centers\<rparr>"
    by (simp add: get_by_pathology_def py_in_sublist Let_def)
  show "get_by_discipline ul [c\<lparr>Discipline := field\<rparr>] (Some (str ''tennis'')) =
     Inr \<lparr>discipline = str ''tennis'', discipline_response.count = 1,
          discipline_response.data = [c\<lparr>Discipline := field\<rparr>]\<rparr>"
    by (simp add: get_by_discipline_def Let_def field_def py_lower_def lower_cp_def str_def CRLF_def)
  show "get_by_pathology ul [c\<lparr>Pathologies := field\<rparr>] (Some (str ''tennis'')) =
     Inr \<lparr>pathology = str ''tennis'', pathology_response.count = 1,
          pathology_response.data = [c\<lparr>Pathologies := field\<rparr>]\<rparr>"
    by (simp add: get_by_pathology_def Let_def field_def py_lower_def lower_cp_def str_def CRLF_def)
  show "map (\<lambda>d. py_lower ul (py_strip d)) (split_on CRLF field) =
     [str ''basket'', str ''tennis de table'', []]"
    by (simp add: field_def py_lower_def lower_cp_def py_strip_def is_space_def str_def CRLF_def)
qed

theorem by_discipline_by_pathology_substring_witness:
  "get_by_discipline id [center_tours, center_piscine] (Some (str ''TENNIS'')) =
     Inr \<lparr>discipline = str ''TENNIS'', discipline_response.count = 1,
          discipline_response.data = [center_tours]\<rparr> \<and>
   get_by_pathology id [center_tours, center_piscine] (Some (str ''cancer'')) =
     Inr \<lparr>pathology = str ''cancer'', pathology_response.count = 2,
          pathology_response.data = [center_tours, center_piscine]\<rparr>"
  unfolding conjunct1 [OF by_discipline_by_pathology_substring [of id]]
    conjunct1 [OF conjunct2 [OF by_discipline_by_pathology_substring [of id]]]
    py_in_sublist [symmetric]
  by (simp add: center_tours_def center_piscine_def py_lower_def lower_cp_def str_def CRLF_def)

text \<open>
  C4: \<open>list_disciplines\<close> lists exactly the non-empty stripped segments that splitting the
  discipline fields of the collection on \<open>"\r\n"\<close> yields. The list holds no empty string
  and no duplicate, is sorted by code points, and \<open>count\<close> is its length.
  \<open>list_pathologies\<close> does the same over the pathologies field. On two records whose
  fields are \<open>"Tennis\r\nBasket\r\n"\<close> and \<open>"Tennis\r\n"\<close> the list is \<open>Basket\<close>, \<open>Tennis\<close>.
\<close>

theorem list_disciplines_list_pathologies_spec:
  fixes c1 c2 :: center
  defines "two \<equiv> str ''Tennis'' @ CRLF @ str ''Basket'' @ CRLF"
      and "one \<equiv> str ''Tennis'' @ CRLF"
  shows
  "set (disciplines (list_disciplines centers)) =
     {t. t \<noteq> [] \<and> (\<exists>c\<in>set centers. t \<in> py_strip ` set (split_on CRLF (Discipline c)))} \<and>
   [] \<notin> set (disciplines (list_disciplines centers)) \<and>
   distinct (disciplines (list_disciplines centers)) \<and>
   sorted (disciplines (list_disciplines centers)) \<and>
   disciplines_response.count (list_disciplines centers) =
     length (disciplines (list_disciplines centers)) \<and>
   set (pathologies (list_pathologies centers)) =
     {t. t \<noteq> [] \<and> (\<exists>c\<in>set centers. t \<in> py_strip ` set (split_on CRLF (Pathologies c)))} \<and>
   [] \<notin> set (pathologies (list_pathologies centers)) \<and>
   distinct (pathologies (list_pathologies centers)) \<and>
   sorted (pathologies (list_pathologies centers)) \<and>
   pathologies_response.count (list_pathologies centers) =
     length (pathologies (list_pathologies centers)) \<and>
   list_disciplines [c1\<lparr>Discipline := two\<rparr>, c2\<lparr>Discipline := one\<rparr>] =
     \<lparr>disciplines_response.count = 2, disciplines = [str ''Basket'', str ''Tennis'']\<rparr> \<and>
   list_pathologies [c1\<lparr>Pathologies := two\<rparr>, c2\<lparr>Pathologies := one\<rparr>] =
     \<lparr>pathologies_response.count = 2, pathologies = [str ''Basket'', str ''Tennis'']\<rparr>"
proof -
  have ex: "collect_tokens f [a, b] {} = {str ''Tennis'', str ''Basket''}"
    if "f a = two" "f b = one" for f and a b :: center
    using that by (simp add: two_def one_def CRLF_def str_def py_strip_def is_space_def insert_commute)
  have srt: "sorted_list_of_set {str ''Tennis'', str ''Basket''} = [str ''Basket'', str ''Tennis'']"
    by (simp add: str_def)
  have crd: "card {str ''Tennis'', str ''Basket''} = 2"
    by (simp add: str_def)
  have e1: "list_disciplines [c1\<lparr>Discipline := two\<rparr>, c2\<lparr>Discipline := one\<rparr>] =
     \<lparr>disciplines_response.count = 2, disciplines = [str ''Basket'', str ''Tennis'']\<rparr>"
    unfolding list_disciplines_def Let_def by (subst (1 2) ex) (simp_all add: srt crd)
  have e2: "list_pathologies [c1\<lparr>Pathologies := two\<rparr>, c2\<lparr>Pathologies := one\<rparr>] =
     \<lparr>pathologies_response.count = 2, pathologies = [str ''Basket'', str ''Tennis'']\<rparr>"
    unfolding list_pathologies_def Let_def by (subst (1 2) ex) (simp_all add: srt crd)
  show ?thesis
    using tokens_sorted [of Discipline centers] tokens_sorted [of Pathologies centers] e1 e2
    by (simp add: list_disciplines_def list_pathologies_def Let_def)
qed

theorem list_disciplines_list_pathologies_spec_witness:
  "set (disciplines (list_disciplines [center_tours, center_piscine])) =
     {str ''Basket'', str ''Natation'', str ''Tennis de table''} \<and>
   sorted (disciplines (list_disciplines [center_tours, center_piscine])) \<and>
   set (pathologies (list_pathologies [center_tours, center_piscine])) =
     {str ''Cancer'', str ''Diabete'', str ''Obesite''} \<and>
   distinct (pathologies (list_pathologies [center_tours, center_piscine]))"
proof -
  let ?cs = "[center_tours, center_piscine]"
  note spec = list_disciplines_list_pathologies_spec [of ?cs]
  have d: "set (disciplines (list_disciplines ?cs)) =
      {str ''Basket'', str ''Natation'', str ''Tennis de table''}"
    unfolding conjunct1 [OF spec]
    by (auto simp: center_tours_def center_piscine_def CRLF_def str_def py_strip_def is_space_def)
  have p: "set (pathologies (list_pathologies ?cs)) =
      {str ''Cancer'', str ''Diabete'', str ''Obesite''}"
    unfolding conjunct1 [OF conjunct2 [OF conjunct2 [OF conjunct2 [OF conjunct2 [OF conjunct2 [OF spec]]]]]]
    by (auto simp: center_tours_def center_piscine_def CRLF_def str_def py_strip_def is_space_def)
  from d p spec show ?thesis by blast
qed

text \<open>
  C10: an empty \<open>name\<close> that the request supplies is not rejected: \<open>by_discipline\<close> and
  \<open>by_pathology\<close> return the whole collection in its order, with its size as \<open>count\<close>.
\<close>

theorem empty_name_returns_all:
  "get_by_discipline ul centers (Some []) =
     Inr \<lparr>discipline = [], discipline_response.count = length centers,
          discipline_response.data = centers\<rparr> \<and>
   get_by_pathology ul centers (Some []) =
     Inr \<lparr>pathology = [], pathology_response.count = length centers,
          pathology_response.data = centers\<rparr>"
  by (simp add: get_by_discipline_def get_by_pathology_def py_lower_def py_in_sublist Let_def)

text \<open>
  C1 does not hold for every query point: \<open>haversine_distance\<close> takes the square root of
  the term \<open>a\<close> without a guard. Whenever that term comes out negative for a record of a
  collection whose coordinates are all numbers, \<open>nearby\<close> ends in \<open>ValueError\<close> for any valid
  radius and returns no record. On doubles this happens for the query (492.61, 180.69)
  against a record at (47.39, 0.69), where \<open>a\<close> is -5.551115123125783e-17.
\<close>

theorem nearby_domain_error_unguarded:
  assumes radius: "1 \<le> r" "r \<le> 500"
      and coords: "list_all (\<lambda>c. is_number (lat c) \<and> is_number (lng c)) centers"
      and c: "c \<in> set centers" "lat c = Number a" "lng c = Number b"
      and neg: "haversine_a fp (f_radians fp la) (f_radians fp lo)
                  (f_radians fp a) (f_radians fp b) < 0"
  shows "get_nearby_centers fp centers (Some la) (Some lo) (Some r) = Inl ValueError"
proof -
  have "center_distance fp la lo c = Inl ValueError"
    using c neg by (simp add: center_distance_def haversine_distance_negative_term)
  then have "isl (center_distance fp la lo c)" by simp
  with c(1) have "\<not> list_all (\<lambda>c. \<not> isl (center_distance fp la lo c)) centers"
    by (auto simp: list_all_iff)
  then have "isl (nearby_loop fp la lo r centers [])"
    by (rule nearby_loop_faults)
  then obtain e where e: "nearby_loop fp la lo r centers [] = Inl e"
    by (auto simp: isl_def)
  then obtain c' where c': "c' \<in> set centers" "center_distance fp la lo c' = Inl e"
    by (blast dest: nearby_loop_fault_kind)
  from coords c'(1) have "is_number (lat c')" "is_number (lng c')"
    by (auto simp: list_all_iff)
  then obtain x y where "lat c' = Number x" "lng c' = Number y"
    by (cases "lat c'"; cases "lng c'") simp_all
  with c'(2) have "haversine_distance fp la lo x y = Inl e"
    by (simp add: center_distance_def)
  then have "e = ValueError" by (rule haversine_distance_fault)
  with e radius show ?thesis
    by (simp add: get_nearby_centers_def)
qed

theorem nearby_domain_error_unguarded_witness:
  "haversine_a traced_ops (f_radians traced_ops 492.61) (f_radians traced_ops 180.69)
     (f_radians traced_ops 47.39) (f_radians traced_ops 0.69) = - 0.00000000000000005551115123125783 \<and>
   get_nearby_centers traced_ops [center_tours] (Some 492.61) (Some 180.69) (Some 50) =
     Inl ValueError"
proof -
  have neg: "haversine_a traced_ops (f_radians traced_ops 492.61) (f_radians traced_ops 180.69)
     (f_radians traced_ops 47.39) (f_radians traced_ops 0.69) < 0"
    by (subst haversine_a_v19) simp
  have "get_nearby_centers traced_ops [center_tours] (Some 492.61) (Some 180.69) (Some 50) =
     Inl ValueError"
    by (rule nearby_domain_error_unguarded [OF _ _ _ _ _ _ neg, where c = center_tours])
       (simp_all add: center_tours_def)
  with haversine_a_v19 show ?thesis by simp
qed

text \<open>
  C8, as the code has it, for an arithmetic that is exact at zero and keeps the sign: when
  \<open>nearby\<close> returns a result, a record at the query point is in \<open>data\<close> with \<open>distance_km\<close> 0,
  and the first entry of \<open>data\<close> has \<open>distance_km\<close> 0. The first entry is the earliest record
  of the collection that is within the radius and has \<open>distance_km\<close> 0: the record at the
  query point when no record before it is such a record, and otherwise the earliest one
  that is.
\<close>

theorem nearby_center_at_query_point:
  assumes fp: "exact_at_zero fp" "keeps_sign fp"
      and returns: "get_nearby_centers fp centers (Some la) (Some lo) (Some r) = Inr res"
      and c: "c \<in> set centers" "lat c = Number la" "lng c = Number lo"
  shows "\<lparr>entries = c, distance_km = 0\<rparr> \<in> set (nearby_response.data res) \<and>
     distance_km (hd (nearby_response.data res)) = 0 \<and>
     (\<forall>before e after.
        centers = before @ e # after \<and>
        in_radius fp la lo r e \<and> distance_km (annotate fp la lo e) = 0 \<and>
        list_all (\<lambda>b. \<not> (in_radius fp la lo r b \<and> distance_km (annotate fp la lo b) = 0)) before
        \<longrightarrow> hd (nearby_response.data res) = \<lparr>entries = e, distance_km = 0\<rparr>) \<and>
     (\<forall>before after.
        centers = before @ c # after \<and>
        list_all (\<lambda>b. \<not> (in_radius fp la lo r b \<and> distance_km (annotate fp la lo b) = 0)) before
        \<longrightarrow> hd (nearby_response.data res) = \<lparr>entries = c, distance_km = 0\<rparr>)"
proof -
  let ?xs = "map (annotate fp la lo) (filter (in_radius fp la lo r) centers)"
  let ?x = "\<lparr>entries = c, distance_km = 0\<rparr>"
  let ?zero = "\<lambda>b. in_radius fp la lo r b \<and> distance_km (annotate fp la lo b) = 0"
  from get_nearby_centers_returns [OF returns]
  have data: "nearby_response.data res = sort_key distance_km ?xs" and r: "1 \<le> r"
    by simp_all
  have km: "center_distance fp la lo c = Inr 0"
    using fp(1) c(2,3) by (rule center_distance_same_point)
  have ann: "annotate fp la lo c = ?x"
    using fp(1) by (simp add: annotate_def km exact_at_zero_def)
  have inr: "in_radius fp la lo r c"
    using r by (simp add: in_radius_def km)
  have mem: "?x \<in> set ?xs"
    using inr ann c(1) by (auto simp: image_iff)
  have least: "\<forall>y\<in>set ?xs. distance_km ?x \<le> distance_km y"
    using annotate_nonneg [OF fp(2)] by auto
  have hd_eq: "hd (sort_key distance_km ?xs) = hd (filter (\<lambda>y. distance_km y = distance_km ?x) ?xs)"
    using mem least by (rule hd_sort_key_min)
  have d0: "distance_km ?x = 0" by simp
  with mem have "?x \<in> set (filter (\<lambda>y. distance_km y = 0) ?xs)"
    unfolding set_filter by blast
  then have "filter (\<lambda>y. distance_km y = 0) ?xs \<noteq> []"
    by (metis empty_iff empty_set)
  then have "hd (filter (\<lambda>y. distance_km y = 0) ?xs) \<in> set (filter (\<lambda>y. distance_km y = 0) ?xs)"
    by (rule hd_in_set)
  then have zero: "distance_km (hd (sort_key distance_km ?xs)) = 0"
    unfolding hd_eq by simp
  have first: "hd (sort_key distance_km ?xs) = \<lparr>entries = e, distance_km = 0\<rparr>"
    if split: "centers = before @ e # after" and e: "?zero e" and none: "list_all (\<lambda>b. \<not> ?zero b) before"
    for before e after
  proof -
    have "filter (\<lambda>y. distance_km y = 0) (map (annotate fp la lo) (filter (in_radius fp la lo r) before)) = []"
      using none by (auto simp: filter_empty_conv list_all_iff)
    moreover have "annotate fp la lo e = \<lparr>entries = e, distance_km = 0\<rparr>"
      using e by (simp add: annotate_def)
    ultimately have "filter (\<lambda>y. distance_km y = 0) ?xs =
        \<lparr>entries = e, distance_km = 0\<rparr> #
        filter (\<lambda>y. distance_km y = 0) (map (annotate fp la lo) (filter (in_radius fp la lo r) after))"
      using e by (simp add: split)
    then show ?thesis unfolding hd_eq by simp
  qed
  have czero: "?zero c"
    using inr ann by simp
  have A: "?x \<in> set (nearby_response.data res)"
    unfolding data set_sort by (rule mem)
  have B: "distance_km (hd (nearby_response.data res)) = 0"
    unfolding data by (rule zero)
  have C: "\<forall>before e after.
        centers = before @ e # after \<and>
        in_radius fp la lo r e \<and> distance_km (annotate fp la lo e) = 0 \<and>
        list_all (\<lambda>b. \<not> (in_radius fp la lo r b \<and> distance_km (annotate fp la lo b) = 0)) before
        \<longrightarrow> hd (nearby_response.data res) = \<lparr>entries = e, distance_km = 0\<rparr>"
    unfolding data using first by blast
  have D: "\<forall>before after.
        centers = before @ c # after \<and>
        list_all (\<lambda>b. \<not> (in_radius fp la lo r b \<and> distance_km (annotate fp la lo b) = 0)) before
        \<longrightarrow> hd (nearby_response.data res) = \<lparr>entries = c, distance_km = 0\<rparr>"
    using C czero by blast
  show ?thesis
    by (rule conjI [OF A conjI [OF B conjI [OF C D]]])
qed

theorem nearby_center_at_query_point_witness:
  "get_nearby_centers traced_ops [center_east_b, center_origin, center_origin_2]
     (Some 0) (Some 0) (Some 50) =
     Inr \<lparr>location = (0, 0), radius_km = 50, nearby_response.count = 3,
          nearby_response.data = [\<lparr>entries = center_origin, distance_km = 0\<rparr>,
                                  \<lparr>entries = center_origin_2, distance_km = 0\<rparr>,
                                  \<lparr>entries = center_east_b, distance_km = 1.01\<rparr>]\<rparr> \<and>
   \<lparr>entries = center_origin_2, distance_km = 0\<rparr> \<in>
     set [\<lparr>entries = center_origin, distance_km = 0\<rparr>,
          \<lparr>entries = center_origin_2, distance_km = 0\<rparr>,
          \<lparr>entries = center_east_b, distance_km = 1.01\<rparr>] \<and>
   hd [\<lparr>entries = center_origin, distance_km = 0\<rparr>,
       \<lparr>entries = center_origin_2, distance_km = 0\<rparr>,
       \<lparr>entries = center_east_b, distance_km = 1.01\<rparr>] = \<lparr>entries = center_origin, distance_km = 0\<rparr>"
proof -
  have c: "center_origin_2 \<in> set [center_east_b, center_origin, center_origin_2]"
      "lat center_origin_2 = Number 0" "lng center_origin_2 = Number 0"
    by (simp_all add: center_origin_2_def)
  note spec = nearby_center_at_query_point
    [OF traced_ops_exact_at_zero traced_ops_keeps_sign traced_run_origin c]
  have o: "center_distance traced_ops 0 0 center_origin = Inr 0"
    by (rule traced_same_point) (simp_all add: center_origin_def)
  have e: "in_radius traced_ops 0 0 50 center_origin \<and>
      distance_km (annotate traced_ops 0 0 center_origin) = 0"
    by (simp add: in_radius_def annotate_def o round_to_def round_half_even_def)
  have none: "list_all (\<lambda>b. \<not> (in_radius traced_ops 0 0 50 b \<and>
      distance_km (annotate traced_ops 0 0 b) = 0)) [center_east_b]"
    by (simp add: in_radius_def annotate_def center_distance_east_b round_to_def
        round_half_even_def Let_def)
  have split: "[center_east_b, center_origin, center_origin_2] =
      [center_east_b] @ center_origin # [center_origin_2]"
    by simp
  from spec split e none
  have "hd (nearby_response.data
      \<lparr>location = (0, 0), radius_km = 50, nearby_response.count = 3,
          nearby_response.data = [\<lparr>entries = center_origin, distance_km = 0\<rparr>,
                                  \<lparr>entries = center_origin_2, distance_km = 0\<rparr>,
                                  \<lparr>entries = center_east_b, distance_km = 1.01\<rparr>]\<rparr>) =
      \<lparr>entries = center_origin, distance_km = 0\<rparr>"
    by blast
  with traced_run_origin spec show ?thesis by simp
qed

text \<open>
  Two records at the query point (47.39, 0.69): the second one is at the query point and
  is not the first entry of \<open>data\<close>.
\<close>

theorem nearby_colocated_counterexample:
  "lat center_piscine = Number 47.39 \<and> lng center_piscine = Number 0.69 \<and>
   center_tours \<noteq> center_piscine \<and>
   get_nearby_centers traced_ops [center_tours, center_piscine] (Some 47.39) (Some 0.69) (Some 50) =
     Inr \<lparr>location = (47.39, 0.69), radius_km = 50, nearby_response.count = 2,
          nearby_response.data = [\<lparr>entries = center_tours, distance_km = 0\<rparr>,
                                  \<lparr>entries = center_piscine, distance_km = 0\<rparr>]\<rparr>"
proof -
  have "center_tours \<noteq> center_piscine"
    by (simp add: center_tours_def center_piscine_def str_def)
  moreover have "lat center_piscine = Number 47.39" "lng center_piscine = Number 0.69"
    by (simp_all add: center_piscine_def)
  ultimately show ?thesis using traced_run_tours by blast
qed

text \<open>
  C9: when \<open>nearby\<close> returns a result, every entry of \<open>data\<close> belongs to a record whose
  unrounded distance passed the radius test and carries that distance rounded to two
  decimals as \<open>distance_km\<close>, the sort key. So a record whose distance is at most the radius
  and rounds up past it is returned with \<open>distance_km\<close> above the radius. And for each value
  of \<open>distance_km\<close>, the entries carrying it are the kept records whose distance rounds to
  it, in collection order, whatever their unrounded distances.
\<close>

theorem nearby_rounding_effects:
  assumes returns: "get_nearby_centers fp centers (Some la) (Some lo) (Some r) = Inr res"
  shows "(\<forall>x\<in>set (nearby_response.data res).
            \<exists>d. center_distance fp la lo (entries x) = Inr d \<and> d \<le> r \<and>
                distance_km x = f_round fp d 2) \<and>
         (\<forall>c\<in>set centers. \<forall>d.
            center_distance fp la lo c = Inr d \<and> d \<le> r \<and> r < f_round fp d 2 \<longrightarrow>
            \<lparr>entries = c, distance_km = f_round fp d 2\<rparr> \<in> set (nearby_response.data res)) \<and>
         sorted (map distance_km (nearby_response.data res)) \<and>
         (\<forall>k. filter (\<lambda>x. distance_km x = k) (nearby_response.data res) =
               map (\<lambda>c. \<lparr>entries = c, distance_km = k\<rparr>)
                 (filter (\<lambda>c. \<exists>d. center_distance fp la lo c = Inr d \<and> d \<le> r \<and>
                                   f_round fp d 2 = k) centers))"
proof -
  let ?xs = "map (annotate fp la lo) (filter (in_radius fp la lo r) centers)"
  from get_nearby_centers_returns [OF returns]
  have data: "nearby_response.data res = sort_key distance_km ?xs"
    and all: "list_all (\<lambda>c. \<not> isl (center_distance fp la lo c)) centers"
    by simp_all
  have kept: "in_radius fp la lo r c \<longleftrightarrow> (\<exists>d. center_distance fp la lo c = Inr d \<and> d \<le> r)" for c
    by (auto simp: in_radius_def split: sum.splits)
  have key: "in_radius fp la lo r c \<and> distance_km (annotate fp la lo c) = k \<longleftrightarrow>
      (\<exists>d. center_distance fp la lo c = Inr d \<and> d \<le> r \<and> f_round fp d 2 = k)" for c k
    by (auto simp: in_radius_def annotate_def split: sum.splits)
  have a: "\<forall>x\<in>set (nearby_response.data res).
            \<exists>d. center_distance fp la lo (entries x) = Inr d \<and> d \<le> r \<and>
                distance_km x = f_round fp d 2"
    unfolding data by (auto simp: kept annotate_def)
  have b: "\<forall>c\<in>set centers. \<forall>d.
            center_distance fp la lo c = Inr d \<and> d \<le> r \<and> r < f_round fp d 2 \<longrightarrow>
            \<lparr>entries = c, distance_km = f_round fp d 2\<rparr> \<in> set (nearby_response.data res)"
    unfolding data by (auto simp: kept annotate_def image_iff intro!: bexI)
  have c: "sorted (map distance_km (nearby_response.data res))"
    unfolding data by simp
  have d: "filter (\<lambda>x. distance_km x = k) (nearby_response.data res) =
               map (\<lambda>c. \<lparr>entries = c, distance_km = k\<rparr>)
                 (filter (\<lambda>c. \<exists>d. center_distance fp la lo c = Inr d \<and> d \<le> r \<and>
                                   f_round fp d 2 = k) centers)" for k
  proof -
    have "filter (\<lambda>x. distance_km x = k) (sort_key distance_km ?xs) =
        filter (\<lambda>x. distance_km x = k) ?xs"
      by (rule sort_key_stable)
    also have "\<dots> = map (annotate fp la lo)
        (filter (\<lambda>c. in_radius fp la lo r c \<and> distance_km (annotate fp la lo c) = k) centers)"
      by (simp add: filter_map o_def conj_commute)
    also have "\<dots> = map (annotate fp la lo)
        (filter (\<lambda>c. \<exists>d. center_distance fp la lo c = Inr d \<and> d \<le> r \<and> f_round fp d 2 = k) centers)"
      by (simp only: key)
    also have "\<dots> = map (\<lambda>c. \<lparr>entries = c, distance_km = k\<rparr>)
        (filter (\<lambda>c. \<exists>d. center_distance fp la lo c = Inr d \<and> d \<le> r \<and> f_round fp d 2 = k) centers)"
      by (rule map_cong) (auto simp: annotate_def)
    finally show ?thesis unfolding data .
  qed
  from a b c d show ?thesis by blast
qed

text \<open>
  On doubles, with the radius 1.008: records 1.007203645546413 km and
  1.0063140861332567 km away both get 1.01, above the radius, and the farther one, first in
  the collection, stays first.
\<close>

theorem nearby_rounding_effects_witness:
  "get_nearby_centers traced_ops [center_east_a, center_east_b] (Some 0) (Some 0) (Some 1.008) =
     Inr \<lparr>location = (0, 0), radius_km = 1.008, nearby_response.count = 2,
          nearby_response.data = [\<lparr>entries = center_east_a, distance_km = 1.01\<rparr>,
                                  \<lparr>entries = center_east_b, distance_km = 1.01\<rparr>]\<rparr> \<and>
   center_distance traced_ops 0 0 center_east_a = Inr 1.007203645546413 \<and>
   center_distance traced_ops 0 0 center_east_b = Inr 1.0063140861332567 \<and>
   (1.0063140861332567 :: real) \<le> 1.008 \<and> (1.008 :: real) < 1.01 \<and>
   filter (\<lambda>x. distance_km x = 1.01)
     [\<lparr>entries = center_east_a, distance_km = 1.01\<rparr>,
      \<lparr>entries = center_east_b, distance_km = 1.01\<rparr>] =
     map (\<lambda>c. \<lparr>entries = c, distance_km = 1.01\<rparr>)
       (filter (\<lambda>c. \<exists>d. center_distance traced_ops 0 0 c = Inr d \<and> d \<le> 1.008 \<and>
                         f_round traced_ops d 2 = 1.01) [center_east_a, center_east_b])"
proof -
  note spec = nearby_rounding_effects [OF traced_run_east]
  from spec have "filter (\<lambda>x. distance_km x = 1.01)
     [\<lparr>entries = center_east_a, distance_km = 1.01\<rparr>,
      \<lparr>entries = center_east_b, distance_km = 1.01\<rparr>] =
     map (\<lambda>c. \<lparr>entries = c, distance_km = 1.01\<rparr>)
       (filter (\<lambda>c. \<exists>d. center_distance traced_ops 0 0 c = Inr d \<and> d \<le> 1.008 \<and>
                         f_round traced_ops d 2 = 1.01) [center_east_a, center_east_b])"
    by simp
  with traced_run_east center_distance_east_a center_distance_east_b show ?thesis
    by simp
qed

text \<open>
  C7: after any sequence of requests on the loaded process, \<open>centers\<close> holds the same
  references, they point to the dictionaries built at load time, unchanged (\<open>nearby\<close> puts
  \<open>distance_km\<close> into dictionaries it allocates), and the collection read through them is the
  loaded file. So any request gets the reply it would get right after loading, and the
  reply of \<open>nearby\<close> is the result of \<open>get_nearby_centers\<close> on the loaded records.
\<close>

theorem collection_never_mutated:
  "center_refs (run fp ul reqs (load_centers dataset)) = center_refs (load_centers dataset) \<and>
   map ((!) (heap (run fp ul reqs (load_centers dataset)))) (center_refs (load_centers dataset)) =
     map CenterDict dataset \<and>
   collection (run fp ul reqs (load_centers dataset)) = dataset \<and>
   fst (handle fp ul req (run fp ul reqs (load_centers dataset))) = fst (handle fp ul req (load_centers dataset)) \<and>
   fst (handle fp ul (Nearby lat_p lng_p radius_p) (load_centers dataset)) =
     (case get_nearby_centers fp dataset lat_p lng_p radius_p of
        Inl e \<Rightarrow> Inl e | Inr res \<Rightarrow> Inr (NearbyBody (json_body res)))"
proof -
  let ?p0 = "load_centers dataset"
  note l = load_centers_state [of dataset]
  from l have v: "valid_refs ?p0" by simp
  note r = run_state [OF v, of fp ul reqs]
  have same: "fst (handle fp ul req (run fp ul reqs ?p0)) = fst (handle fp ul req ?p0)"
    by (rule handle_reads_collection) (use r l in simp_all)
  have near: "fst (handle fp ul (Nearby lat_p lng_p radius_p) ?p0) =
     (case get_nearby_centers fp dataset lat_p lng_p radius_p of
        Inl e \<Rightarrow> Inl e | Inr res \<Rightarrow> Inr (NearbyBody (json_body res)))"
    unfolding handle_Nearby get_nearby_centers_st_refines [OF v, of fp]
    using l by (simp add: reply_def split: sum.splits)
  from r l same near show ?thesis by simp
qed

lemma traced_heap_same_point:
  assumes "lat c1 = Number la" "lng c1 = Number lo" "lat c2 = Number la" "lng c2 = Number lo"
  shows "heap (snd (handle traced_ops ul (Nearby (Some la) (Some lo) None) (load_centers [c1, c2]))) =
     [CenterDict c1, CenterDict c2,
      NearbyDict \<lparr>entries = c1, distance_km = 0\<rparr>, NearbyDict \<lparr>entries = c2, distance_km = 0\<rparr>]"
proof -
  let ?h = "[CenterDict c1, CenterDict c2]"
  have t: "center_distance traced_ops la lo c1 = Inr 0"
    by (rule traced_same_point) (fact assms)+
  have c: "center_distance traced_ops la lo c2 = Inr 0"
    by (rule traced_same_point) (fact assms)+
  have "nearby_loop_st traced_ops la lo 50 [0, 1] ?h [] =
     (Inr ([] @ [length ?h ..< length ?h +
              length (filter (in_radius traced_ops la lo 50) (map (\<lambda>a. fields_of (?h ! a)) [0, 1]))]),
      ?h @ map NearbyDict
            (map (annotate traced_ops la lo)
               (filter (in_radius traced_ops la lo 50) (map (\<lambda>a. fields_of (?h ! a)) [0, 1]))))"
    by (rule nearby_loop_st_returns) (simp_all add: t c)
  then have loop: "nearby_loop_st traced_ops la lo 50 [0, Suc 0] ?h [] =
      (Inr [2, 3], [CenterDict c1, CenterDict c2,
      NearbyDict \<lparr>entries = c1, distance_km = 0\<rparr>, NearbyDict \<lparr>entries = c2, distance_km = 0\<rparr>])"
    by (simp add: t c in_radius_def annotate_def round_to_def round_half_even_def upt_rec)
  show ?thesis
    unfolding handle_Nearby
    by (simp add: load_centers_def get_nearby_centers_st_def upt_rec loop sort_by_distance_km_def
        del: nearby_loop_st.simps)
qed

theorem collection_never_mutated_witness:
  "collection (run traced_ops id [Nearby (Some 47.39) (Some 0.69) None, Search (Some (str ''tours'')),
                       Nearby (Some 47.39) (Some 0.69) (Some 2)]
     (load_centers [center_tours, center_piscine])) = [center_tours, center_piscine] \<and>
   heap (load_centers [center_tours, center_piscine]) =
     [CenterDict center_tours, CenterDict center_piscine] \<and>
   heap (snd (handle traced_ops id (Nearby (Some 47.39) (Some 0.69) None)
      (load_centers [center_tours, center_piscine]))) =
     [CenterDict center_tours, CenterDict center_piscine,
      NearbyDict \<lparr>entries = center_tours, distance_km = 0\<rparr>,
      NearbyDict \<lparr>entries = center_piscine, distance_km = 0\<rparr>]"
proof (intro conjI)
  let ?p = "load_centers [center_tours, center_piscine]"
  show "collection (run traced_ops id [Nearby (Some 47.39) (Some 0.69) None, Search (Some (str ''tours'')),
                       Nearby (Some 47.39) (Some 0.69) (Some 2)] ?p) = [center_tours, center_piscine]"
    by (rule conjunct1 [OF conjunct2 [OF conjunct2 [OF collection_never_mutated]]])
  show "heap ?p = [CenterDict center_tours, CenterDict center_piscine]"
    by (simp add: load_centers_def)
  show "heap (snd (handle traced_ops id (Nearby (Some 47.39) (Some 0.69) None) ?p)) =
     [CenterDict center_tours, CenterDict center_piscine,
      NearbyDict \<lparr>entries = center_tours, distance_km = 0\<rparr>,
      NearbyDict \<lparr>entries = center_piscine, distance_km = 0\<rparr>]"
    by (rule traced_heap_same_point) (simp_all add: center_tours_def center_piscine_def)
qed

end
